theory Spec2Isabelle
  imports Main
begin

section \<open>Data model (backend/src/types.ts)\<close>

type_synonym client_id = string
type_synonym room_id = string
type_synonym bytes = "nat list"

text \<open>A point in time, as produced by \<^verbatim>\<open>new Date()\<close> and \<^verbatim>\<open>Date.now()\<close>. Every handler
  receives the reading of the clock as its argument \<open>now\<close>.\<close>

type_synonym time = nat

text \<open>A \<^verbatim>\<open>WebSocket\<close> object is shared by reference between the server's listener and the
  registry, so sockets live in a store and are named by a handle.\<close>

type_synonym ws = nat

record user =
  user_id :: string
  user_name :: string
  user_color :: string

datatype role = Owner | Editor | Viewer

record participant =
  part_userId :: string
  part_clientId :: client_id
  part_user :: user
  part_role :: role
  part_joinedAt :: time

type_synonym cursor = "(int \<times> int) option"
type_synonym selection = "string list option"
type_synonym viewport = "(int \<times> int \<times> int) option"

text \<open>Client to server frames. \<open>OtherMessage\<close> is a parsed JSON value whose \<^verbatim>\<open>type\<close> is none
  of the six variants of \<^verbatim>\<open>ClientMessage\<close>: the annotation on \<^verbatim>\<open>JSON.parse\<close> is not checked at
  run time, so such a value reaches the \<^verbatim>\<open>switch\<close>.\<close>

datatype client_message =
    ConnectMessage room_id user "string option"
  | UpdateMessage string
  | PresenceMessage client_id cursor selection viewport
  | LeaveMessage
  | HeartbeatMessage time
  | ChatMessage string string time
  | OtherMessage string

text \<open>Server to client frames, with the two frames the handler sends under
  \<^verbatim>\<open>as any\<close> (chat and heartbeat).\<close>

datatype server_message =
    JoinBroadcast user client_id room_id
  | LeaveBroadcast client_id string
  | SyncResponse string "participant list"
  | UpdateBroadcast string client_id
  | PresenceBroadcast client_id cursor selection viewport
  | ErrorMessage string string
  | ChatBroadcast string string time client_id
  | HeartbeatEcho time

section \<open>Sockets\<close>

datatype ready_state = CONNECTING | OPEN | CLOSING | CLOSED

text \<open>Of a socket the server reads \<^verbatim>\<open>readyState\<close> and calls \<^verbatim>\<open>send\<close>; \<open>sent\<close> is the
  sequence of frames handed to \<^verbatim>\<open>send\<close> so far, oldest first (each one goes on the wire as
  its \<^verbatim>\<open>JSON.stringify\<close>).\<close>

record socket =
  readyState :: ready_state
  sent :: "server_message list"

type_synonym sockets = "ws \<Rightarrow> socket"

definition ws_send :: "ws \<Rightarrow> server_message \<Rightarrow> sockets \<Rightarrow> sockets" where
  "ws_send w msg socks = socks(w := (socks w)\<lparr>sent := sent (socks w) @ [msg]\<rparr>)"

section \<open>ConnectionManager (connection-manager.ts)\<close>

record client_connection =
  conn_ws :: ws
  conn_roomId :: room_id
  conn_user :: user
  conn_joinedAt :: time

text \<open>\<^verbatim>\<open>roomClients\<close> maps a room to a JavaScript \<^verbatim>\<open>Set\<close>, which iterates in insertion order:
  a list without repetition, with \<^verbatim>\<open>add\<close> and \<^verbatim>\<open>delete\<close> as below.\<close>

record connection_manager =
  connections :: "client_id \<rightharpoonup> client_connection"
  roomClients :: "room_id \<rightharpoonup> client_id list"

definition new_ConnectionManager :: connection_manager where
  "new_ConnectionManager = \<lparr>connections = Map.empty, roomClients = Map.empty\<rparr>"

definition set_add :: "'a \<Rightarrow> 'a list \<Rightarrow> 'a list" where
  "set_add x xs = (if x \<in> set xs then xs else xs @ [x])"

definition set_delete :: "'a \<Rightarrow> 'a list \<Rightarrow> 'a list" where
  "set_delete x xs = filter (\<lambda>y. y \<noteq> x) xs"

definition addConnection ::
  "client_id \<Rightarrow> ws \<Rightarrow> room_id \<Rightarrow> user \<Rightarrow> time \<Rightarrow> connection_manager \<Rightarrow> connection_manager" where
  "addConnection clientId w roomId usr now m =
     (let conns = (connections m)(clientId \<mapsto>
                     \<lparr>conn_ws = w, conn_roomId = roomId, conn_user = usr, conn_joinedAt = now\<rparr>);
          rc = (if roomClients m roomId = None then (roomClients m)(roomId \<mapsto> [])
                else roomClients m);
          rc' = (case rc roomId of
                   Some roomSet \<Rightarrow> rc(roomId \<mapsto> set_add clientId roomSet)
                 | None \<Rightarrow> rc)
      in \<lparr>connections = conns, roomClients = rc'\<rparr>)"

definition removeConnection ::
  "client_id \<Rightarrow> connection_manager \<Rightarrow> (room_id \<times> user) option \<times> connection_manager" where
  "removeConnection clientId m =
     (case connections m clientId of
        None \<Rightarrow> (None, m)
      | Some connection \<Rightarrow>
          (let roomId = conn_roomId connection;
               usr = conn_user connection;
               rc = (case roomClients m roomId of
                       None \<Rightarrow> roomClients m
                     | Some roomSet \<Rightarrow>
                         (let roomSet' = set_delete clientId roomSet
                          in if length roomSet' = 0 then (roomClients m)(roomId := None)
                             else (roomClients m)(roomId \<mapsto> roomSet')))
           in (Some (roomId, usr),
               \<lparr>connections = (connections m)(clientId := None), roomClients = rc\<rparr>)))"

definition getRoomId :: "client_id \<Rightarrow> connection_manager \<Rightarrow> room_id option" where
  "getRoomId clientId m = map_option conn_roomId (connections m clientId)"

definition getUser :: "client_id \<Rightarrow> connection_manager \<Rightarrow> user option" where
  "getUser clientId m = map_option conn_user (connections m clientId)"

definition getRoomClientCount :: "room_id \<Rightarrow> connection_manager \<Rightarrow> nat" where
  "getRoomClientCount roomId m =
     (case roomClients m roomId of None \<Rightarrow> 0 | Some roomSet \<Rightarrow> length roomSet)"

definition isRoomEmpty :: "room_id \<Rightarrow> connection_manager \<Rightarrow> bool" where
  "isRoomEmpty roomId m = (getRoomClientCount roomId m = 0)"

fun participants_loop ::
  "client_id list \<Rightarrow> (client_id \<rightharpoonup> client_connection) \<Rightarrow> participant list" where
  "participants_loop [] conns = []"
| "participants_loop (clientId # rest) conns =
     (case conns clientId of
        Some connection \<Rightarrow>
          \<lparr>part_userId = user_id (conn_user connection), part_clientId = clientId,
           part_user = conn_user connection, part_role = Editor,
           part_joinedAt = conn_joinedAt connection\<rparr> # participants_loop rest conns
      | None \<Rightarrow> participants_loop rest conns)"

definition getRoomParticipants :: "room_id \<Rightarrow> connection_manager \<Rightarrow> participant list" where
  "getRoomParticipants roomId m =
     (case roomClients m roomId of
        Some clientIds \<Rightarrow> participants_loop clientIds (connections m)
      | None \<Rightarrow> [])"

text \<open>The body of the loop of \<^verbatim>\<open>broadcastToRoom\<close>: the excluded client is skipped, and a
  frame goes only to a client that has a connection whose socket is open.\<close>

fun broadcast_loop ::
  "client_id list \<Rightarrow> server_message \<Rightarrow> client_id option \<Rightarrow>
   (client_id \<rightharpoonup> client_connection) \<Rightarrow> sockets \<Rightarrow> sockets" where
  "broadcast_loop [] msg excludeClientId conns socks = socks"
| "broadcast_loop (clientId # rest) msg excludeClientId conns socks =
     (if Some clientId = excludeClientId then broadcast_loop rest msg excludeClientId conns socks
      else (case conns clientId of
              Some connection \<Rightarrow>
                (if readyState (socks (conn_ws connection)) = OPEN
                 then broadcast_loop rest msg excludeClientId conns
                        (ws_send (conn_ws connection) msg socks)
                 else broadcast_loop rest msg excludeClientId conns socks)
            | None \<Rightarrow> broadcast_loop rest msg excludeClientId conns socks))"

definition broadcastToRoom ::
  "room_id \<Rightarrow> server_message \<Rightarrow> client_id option \<Rightarrow> connection_manager \<Rightarrow> sockets \<Rightarrow> sockets" where
  "broadcastToRoom roomId msg excludeClientId m socks =
     (case roomClients m roomId of
        None \<Rightarrow> socks
      | Some clientIds \<Rightarrow> broadcast_loop clientIds msg excludeClientId (connections m) socks)"

definition sendToClient ::
  "client_id \<Rightarrow> server_message \<Rightarrow> connection_manager \<Rightarrow> sockets \<Rightarrow> sockets" where
  "sendToClient clientId msg m socks =
     (case connections m clientId of
        Some connection \<Rightarrow>
          (if readyState (socks (conn_ws connection)) = OPEN
           then ws_send (conn_ws connection) msg socks else socks)
      | None \<Rightarrow> socks)"

subsection \<open>Sequences of registry calls\<close>

datatype registry_call =
    Add client_id ws room_id user time
  | Remove client_id

fun registry_call_run :: "registry_call \<Rightarrow> connection_manager \<Rightarrow> connection_manager" where
  "registry_call_run (Add clientId w roomId usr now) m = addConnection clientId w roomId usr now m"
| "registry_call_run (Remove clientId) m = snd (removeConnection clientId m)"

fun registry_run :: "registry_call list \<Rightarrow> connection_manager \<Rightarrow> connection_manager" where
  "registry_run [] m = m"
| "registry_run (c # cs) m = registry_run cs (registry_call_run c m)"

text \<open>No \<open>Add\<close> of the sequence is for a client that, when the call is made, has a
  connection for another room: the client has no connection then, or one for the same
  room.\<close>

fun adds_keep_room :: "registry_call list \<Rightarrow> connection_manager \<Rightarrow> bool" where
  "adds_keep_room [] m = True"
| "adds_keep_room (Add clientId w roomId usr now # cs) m =
     ((case connections m clientId of
         None \<Rightarrow> True
       | Some connection \<Rightarrow> conn_roomId connection = roomId) \<and>
      adds_keep_room cs (registry_call_run (Add clientId w roomId usr now) m))"
| "adds_keep_room (Remove clientId # cs) m =
     adds_keep_room cs (registry_call_run (Remove clientId) m)"

text \<open>The two indexes agree, and no bucket is empty or lists a client twice.\<close>

definition indexes_agree :: "connection_manager \<Rightarrow> bool" where
  "indexes_agree m \<longleftrightarrow>
     (\<forall>clientId roomId.
        (\<exists>roomSet. roomClients m roomId = Some roomSet \<and> clientId \<in> set roomSet) \<longleftrightarrow>
        (\<exists>connection. connections m clientId = Some connection \<and> conn_roomId connection = roomId))"

definition no_empty_bucket :: "connection_manager \<Rightarrow> bool" where
  "no_empty_bucket m \<longleftrightarrow> (\<forall>roomId roomSet. roomClients m roomId = Some roomSet \<longrightarrow> roomSet \<noteq> [])"

definition buckets_distinct :: "connection_manager \<Rightarrow> bool" where
  "buckets_distinct m \<longleftrightarrow> (\<forall>roomId roomSet. roomClients m roomId = Some roomSet \<longrightarrow> distinct roomSet)"

definition one_room_per_client :: "connection_manager \<Rightarrow> bool" where
  "one_room_per_client m \<longleftrightarrow>
     (\<forall>clientId r1 r2 s1 s2.
        roomClients m r1 = Some s1 \<and> clientId \<in> set s1 \<and>
        roomClients m r2 = Some s2 \<and> clientId \<in> set s2 \<longrightarrow> r1 = r2)"

definition registry_inv :: "connection_manager \<Rightarrow> bool" where
  "registry_inv m \<longleftrightarrow> indexes_agree m \<and> no_empty_bucket m \<and> buckets_distinct m"

text \<open>The members listed for a room: its bucket, or nothing when the room has none.\<close>

definition bucket :: "connection_manager \<Rightarrow> room_id \<Rightarrow> client_id list" where
  "bucket m r = (case roomClients m r of None \<Rightarrow> [] | Some s \<Rightarrow> s)"

section \<open>The store (Prisma client)\<close>

text \<open>Modelled from the spec: the Prisma schema of the three tables is not among the sources.
  The columns are those the handlers read and write and those of the persistent records of
  the data model: a room is keyed by its id; a participant row is created with \<^verbatim>\<open>joinedAt\<close>
  set to the time of creation and \<^verbatim>\<open>leftAt\<close> null; a snapshot row has an id generated by the
  store, different from every id of the table.\<close>

record room_row =
  room_name :: string
  room_creatorId :: string
  room_createdAt :: time
  room_lastActive :: time

record participant_row =
  prow_roomId :: room_id
  prow_userId :: string
  prow_clientId :: client_id
  prow_userName :: string
  prow_userColor :: string
  prow_role :: role
  prow_joinedAt :: time
  prow_leftAt :: "time option"

record snapshot_row =
  snap_id :: nat
  snap_roomId :: room_id
  snap_snapshotData :: bytes
  snap_stateVector :: bytes
  snap_version :: int

record database =
  rooms :: "room_id \<rightharpoonup> room_row"
  roomParticipants :: "participant_row list"
  roomSnapshots :: "snapshot_row list"

definition room_findUnique :: "room_id \<Rightarrow> database \<Rightarrow> room_row option" where
  "room_findUnique roomId d = rooms d roomId"

definition room_create :: "room_id \<Rightarrow> string \<Rightarrow> string \<Rightarrow> time \<Rightarrow> database \<Rightarrow> database" where
  "room_create roomId nm creatorId now d =
     d\<lparr>rooms := (rooms d)(roomId \<mapsto>
          \<lparr>room_name = nm, room_creatorId = creatorId, room_createdAt = now,
           room_lastActive = now\<rparr>)\<rparr>"

definition room_update_lastActive :: "room_id \<Rightarrow> time \<Rightarrow> database \<Rightarrow> database" where
  "room_update_lastActive roomId now d =
     (case rooms d roomId of
        None \<Rightarrow> d
      | Some r \<Rightarrow> d\<lparr>rooms := (rooms d)(roomId \<mapsto> r\<lparr>room_lastActive := now\<rparr>)\<rparr>)"

definition roomParticipant_create ::
  "room_id \<Rightarrow> string \<Rightarrow> client_id \<Rightarrow> string \<Rightarrow> string \<Rightarrow> role \<Rightarrow> time \<Rightarrow> database \<Rightarrow> database" where
  "roomParticipant_create roomId userId clientId userName userColor rl now d =
     d\<lparr>roomParticipants := roomParticipants d @
          [\<lparr>prow_roomId = roomId, prow_userId = userId, prow_clientId = clientId,
            prow_userName = userName, prow_userColor = userColor, prow_role = rl,
            prow_joinedAt = now, prow_leftAt = None\<rparr>]\<rparr>"

text \<open>\<^verbatim>\<open>updateMany({where: {clientId, leftAt: null}, data: {leftAt: new Date()}})\<close>\<close>

definition close_row :: "client_id \<Rightarrow> time \<Rightarrow> participant_row \<Rightarrow> participant_row" where
  "close_row clientId now r =
     (if prow_clientId r = clientId \<and> prow_leftAt r = None then r\<lparr>prow_leftAt := Some now\<rparr>
      else r)"

definition roomParticipant_updateMany_leftAt :: "client_id \<Rightarrow> time \<Rightarrow> database \<Rightarrow> database" where
  "roomParticipant_updateMany_leftAt clientId now d =
     d\<lparr>roomParticipants := map (close_row clientId now) (roomParticipants d)\<rparr>"

text \<open>\<^verbatim>\<open>findMany({where: {roomId}, orderBy: {version: 'desc'}})\<close>: the rows of the room,
  highest version first (rows of equal version in the order of the table).\<close>

definition roomSnapshot_findMany_desc :: "room_id \<Rightarrow> snapshot_row list \<Rightarrow> snapshot_row list" where
  "roomSnapshot_findMany_desc roomId rows =
     sort_key (\<lambda>s. - snap_version s) (filter (\<lambda>s. snap_roomId s = roomId) rows)"

definition roomSnapshot_findFirst_desc :: "room_id \<Rightarrow> snapshot_row list \<Rightarrow> snapshot_row option" where
  "roomSnapshot_findFirst_desc roomId rows =
     (case roomSnapshot_findMany_desc roomId rows of [] \<Rightarrow> None | s # _ \<Rightarrow> Some s)"

definition fresh_snapshot_id :: "snapshot_row list \<Rightarrow> nat" where
  "fresh_snapshot_id rows = Suc (fold max (map snap_id rows) 0)"

definition roomSnapshot_create ::
  "room_id \<Rightarrow> bytes \<Rightarrow> bytes \<Rightarrow> int \<Rightarrow> snapshot_row list \<Rightarrow> snapshot_row list" where
  "roomSnapshot_create roomId snapshotData stateVector version rows =
     rows @ [\<lparr>snap_id = fresh_snapshot_id rows, snap_roomId = roomId,
              snap_snapshotData = snapshotData, snap_stateVector = stateVector,
              snap_version = version\<rparr>]"

definition roomSnapshot_deleteMany :: "nat list \<Rightarrow> snapshot_row list \<Rightarrow> snapshot_row list" where
  "roomSnapshot_deleteMany ids rows = filter (\<lambda>s. snap_id s \<notin> set ids) rows"

section \<open>Libraries\<close>

text \<open>Yjs, \<^verbatim>\<open>Buffer\<close> and \<^verbatim>\<open>JSON.parse\<close> are not part of the repository; the handlers take them
  as parameters. A document is a value of the type \<open>'doc\<close>: \<open>Y_Doc\<close> is \<^verbatim>\<open>new Y.Doc()\<close>, and the
  two encoders and the two base64 functions are functions of their argument.
  \<^verbatim>\<open>Y.applyUpdate\<close> throws on bytes that are not an update: \<open>Y_throws doc update\<close> says that it
  does, the document is then taken to be as before, and \<open>Y_applyUpdate doc update\<close> is the
  document after a call that returns. \<open>JSON_parse\<close> returns \<open>None\<close> where \<^verbatim>\<open>JSON.parse\<close> throws.
  The calls of the store are taken to return.\<close>

record 'doc externals =
  Y_Doc :: "'doc"
  Y_applyUpdate :: "'doc \<Rightarrow> bytes \<Rightarrow> 'doc"
  Y_throws :: "'doc \<Rightarrow> bytes \<Rightarrow> bool"
  Y_encodeStateAsUpdate :: "'doc \<Rightarrow> bytes"
  Y_encodeStateVector :: "'doc \<Rightarrow> bytes"
  base64_decode :: "string \<Rightarrow> bytes"
  base64_encode :: "bytes \<Rightarrow> string"
  JSON_parse :: "string \<Rightarrow> client_message option"

text \<open>What a handler throws.\<close>

datatype exception = YjsError

section \<open>YjsDocumentManager (yjs/document-manager.ts)\<close>

text \<open>An entry of \<^verbatim>\<open>saveTimers\<close> is the handle of a running \<^verbatim>\<open>setInterval\<close> timer; the
  record keeps what the timer does: the room it saves and its period.\<close>

record interval_timer =
  timer_roomId :: room_id
  timer_ms :: nat

record 'doc yjs_manager =
  documents :: "room_id \<rightharpoonup> 'doc"
  saveTimers :: "room_id \<rightharpoonup> interval_timer"
  saveIntervalMs :: nat

definition new_YjsDocumentManager :: "nat \<Rightarrow> 'doc yjs_manager" where
  "new_YjsDocumentManager ms = \<lparr>documents = Map.empty, saveTimers = Map.empty, saveIntervalMs = ms\<rparr>"

definition setupSnapshotSaving :: "room_id \<Rightarrow> 'doc yjs_manager \<Rightarrow> 'doc yjs_manager" where
  "setupSnapshotSaving roomId y =
     y\<lparr>saveTimers := (saveTimers y)(roomId \<mapsto>
          \<lparr>timer_roomId = roomId, timer_ms = saveIntervalMs y\<rparr>)\<rparr>"

text \<open>The bytes that \<open>getOrCreateDocument\<close> applies are those of a snapshot row, which
  \<open>saveSnapshot\<close> wrote from \<^verbatim>\<open>Y.encodeStateAsUpdate\<close>; \<^verbatim>\<open>Y.applyUpdate\<close> is taken to return on
  them.\<close>

definition getOrCreateDocument ::
  "'doc externals \<Rightarrow> room_id \<Rightarrow> database \<Rightarrow> 'doc yjs_manager \<Rightarrow> 'doc \<times> 'doc yjs_manager" where
  "getOrCreateDocument E roomId d y =
     (case documents y roomId of
        Some doc \<Rightarrow> (doc, y)
      | None \<Rightarrow>
          (let doc = (case roomSnapshot_findFirst_desc roomId (roomSnapshots d) of
                        Some snapshot \<Rightarrow> Y_applyUpdate E (Y_Doc E) (snap_snapshotData snapshot)
                      | None \<Rightarrow> Y_Doc E);
               y1 = y\<lparr>documents := (documents y)(roomId \<mapsto> doc)\<rparr>
           in (doc, setupSnapshotSaving roomId y1)))"

text \<open>\<^verbatim>\<open>(lastSnapshot?.version || 0) + 1\<close>: a version 0 is falsy and gives 0 as well.\<close>

definition next_version :: "snapshot_row option \<Rightarrow> int" where
  "next_version lastSnapshot =
     (case lastSnapshot of
        None \<Rightarrow> 0
      | Some s \<Rightarrow> (if snap_version s = 0 then 0 else snap_version s)) + 1"

text \<open>\<open>saveSnapshot\<close> encodes the document and then makes four calls of the store, with an
  \<^verbatim>\<open>await\<close> before each and no transaction or lock around them: \<^verbatim>\<open>findFirst\<close> for the newest
  row, \<^verbatim>\<open>create\<close>, \<^verbatim>\<open>findMany\<close> for the rows after the first 10, and, when there are any,
  \<^verbatim>\<open>deleteMany\<close>. A save in progress is a task: the room, the encoded bytes, and the call it
  is about to make, with what the calls before have given it. \<open>save_step\<close> makes the next
  call on the table as it is at that moment.\<close>

datatype save_pc =
    BeforeFindFirst
  | BeforeCreate int
  | BeforeFindMany
  | BeforeDeleteMany "nat list"
  | Finished

record save_task =
  save_roomId :: room_id
  save_snapshot :: bytes
  save_stateVector :: bytes
  save_pc :: save_pc

definition save_start :: "'doc externals \<Rightarrow> room_id \<Rightarrow> 'doc \<Rightarrow> save_task" where
  "save_start E roomId document =
     \<lparr>save_roomId = roomId, save_snapshot = Y_encodeStateAsUpdate E document,
      save_stateVector = Y_encodeStateVector E document, save_pc = BeforeFindFirst\<rparr>"

definition save_step :: "save_task \<times> snapshot_row list \<Rightarrow> save_task \<times> snapshot_row list" where
  "save_step = (\<lambda>(t, rows).
     (case save_pc t of
        BeforeFindFirst \<Rightarrow>
          (let lastSnapshot = roomSnapshot_findFirst_desc (save_roomId t) rows
           in (t\<lparr>save_pc := BeforeCreate (next_version lastSnapshot)\<rparr>, rows))
      | BeforeCreate version \<Rightarrow>
          (t\<lparr>save_pc := BeforeFindMany\<rparr>,
           roomSnapshot_create (save_roomId t) (save_snapshot t) (save_stateVector t) version rows)
      | BeforeFindMany \<Rightarrow>
          (let oldSnapshots = drop 10 (roomSnapshot_findMany_desc (save_roomId t) rows)
           in if length oldSnapshots > 0
              then (t\<lparr>save_pc := BeforeDeleteMany (map snap_id oldSnapshots)\<rparr>, rows)
              else (t\<lparr>save_pc := Finished\<rparr>, rows))
      | BeforeDeleteMany ids \<Rightarrow> (t\<lparr>save_pc := Finished\<rparr>, roomSnapshot_deleteMany ids rows)
      | Finished \<Rightarrow> (t, rows)))"

text \<open>A save whose four calls follow one another with no other call of the store in
  between.\<close>

definition save_alone :: "save_task \<Rightarrow> snapshot_row list \<Rightarrow> snapshot_row list" where
  "save_alone t rows = snd (save_step (save_step (save_step (save_step (t, rows)))))"

text \<open>Two saves in progress at once, as when the interval of \<open>setupSnapshotSaving\<close> fires while
  the save of the last leave is under way: the list says which of the two makes the next
  call.\<close>

datatype turn = FirstSave | SecondSave

fun overlap ::
  "turn list \<Rightarrow> save_task \<Rightarrow> save_task \<Rightarrow> snapshot_row list \<Rightarrow>
   save_task \<times> save_task \<times> snapshot_row list" where
  "overlap [] a b rows = (a, b, rows)"
| "overlap (FirstSave # ts) a b rows =
     (case save_step (a, rows) of (a', rows') \<Rightarrow> overlap ts a' b rows')"
| "overlap (SecondSave # ts) a b rows =
     (case save_step (b, rows) of (b', rows') \<Rightarrow> overlap ts a b' rows')"

text \<open>\<open>saveSnapshot\<close> as the handlers of this model call it: the save runs alone.\<close>

definition saveSnapshot ::
  "'doc externals \<Rightarrow> room_id \<Rightarrow> 'doc option \<Rightarrow> 'doc yjs_manager \<Rightarrow> database \<Rightarrow> database" where
  "saveSnapshot E roomId doc y d =
     (case (case doc of Some x \<Rightarrow> Some x | None \<Rightarrow> documents y roomId) of
        None \<Rightarrow> d
      | Some document \<Rightarrow>
          d\<lparr>roomSnapshots := save_alone (save_start E roomId document) (roomSnapshots d)\<rparr>)"

definition applyUpdate ::
  "'doc externals \<Rightarrow> room_id \<Rightarrow> bytes \<Rightarrow> 'doc yjs_manager \<Rightarrow>
   exception + bool \<times> 'doc yjs_manager" where
  "applyUpdate E roomId update y =
     (case documents y roomId of
        Some doc \<Rightarrow>
          (if Y_throws E doc update then Inl YjsError
           else Inr (True, y\<lparr>documents := (documents y)(roomId \<mapsto> Y_applyUpdate E doc update)\<rparr>))
      | None \<Rightarrow> Inr (False, y))"

definition getStateAsUpdate :: "'doc externals \<Rightarrow> room_id \<Rightarrow> 'doc yjs_manager \<Rightarrow> bytes option" where
  "getStateAsUpdate E roomId y = map_option (Y_encodeStateAsUpdate E) (documents y roomId)"

definition getStateVector :: "'doc externals \<Rightarrow> room_id \<Rightarrow> 'doc yjs_manager \<Rightarrow> bytes option" where
  "getStateVector E roomId y = map_option (Y_encodeStateVector E) (documents y roomId)"

text \<open>\<open>destroyDocument\<close> has no caller in the repository: the one call, in
  \<open>handleDisconnect\<close>, is commented out.\<close>

definition destroyDocument ::
  "'doc externals \<Rightarrow> room_id \<Rightarrow> 'doc yjs_manager \<Rightarrow> database \<Rightarrow> 'doc yjs_manager \<times> database" where
  "destroyDocument E roomId y d =
     (case documents y roomId of
        Some doc \<Rightarrow>
          (let d1 = saveSnapshot E roomId (Some doc) y d
           in (y\<lparr>saveTimers := (saveTimers y)(roomId := None),
                 documents := (documents y)(roomId := None)\<rparr>, d1))
      | None \<Rightarrow> (y, d))"

section \<open>MessageHandler (websocket/message-handler.ts)\<close>

text \<open>The state the handlers work on: the registry, the document manager, the store, and
  the sockets. A handler runs from its first statement to its last: the model does not
  interleave two handlers at an \<^verbatim>\<open>await\<close>. Two saves of a snapshot whose store calls
  interleave are in \<open>overlap\<close>.\<close>

record 'doc hub =
  cm :: connection_manager
  ym :: "'doc yjs_manager"
  db :: database
  socks :: sockets

definition handleConnect ::
  "'doc externals \<Rightarrow> client_id \<Rightarrow> ws \<Rightarrow> room_id \<Rightarrow> user \<Rightarrow> time \<Rightarrow> 'doc hub \<Rightarrow> 'doc hub" where
  "handleConnect E clientId w roomId usr now st =
     (let d1 = (case room_findUnique roomId (db st) of
                  None \<Rightarrow> room_create roomId (''Room '' @ roomId) (user_id usr) now (db st)
                | Some room \<Rightarrow> db st);
          d2 = room_update_lastActive roomId now d1;
          m1 = addConnection clientId w roomId usr now (cm st);
          d3 = roomParticipant_create roomId (user_id usr) clientId (user_name usr)
                 (user_color usr) Editor now d2;
          y1 = snd (getOrCreateDocument E roomId d3 (ym st));
          state = getStateAsUpdate E roomId y1;
          participants = getRoomParticipants roomId m1;
          s1 = (case state of
                  Some bs \<Rightarrow>
                    sendToClient clientId (SyncResponse (base64_encode E bs) participants) m1
                      (socks st)
                | None \<Rightarrow> socks st);
          s2 = broadcastToRoom roomId (JoinBroadcast usr clientId roomId) (Some clientId) m1 s1
      in \<lparr>cm = m1, ym = y1, db = d3, socks = s2\<rparr>)"

text \<open>\<^verbatim>\<open>if (!roomId) return\<close> leaves for \<^verbatim>\<open>undefined\<close> and for the empty string.\<close>

definition falsy :: "room_id option \<Rightarrow> bool" where
  "falsy roomId = (case roomId of None \<Rightarrow> True | Some r \<Rightarrow> r = [])"

text \<open>\<open>handleUpdate\<close> applies the update before it broadcasts: when \<^verbatim>\<open>Y.applyUpdate\<close> throws,
  nothing is broadcast and the exception goes to the \<^verbatim>\<open>catch\<close> of \<open>handleMessage\<close>.\<close>

definition handleUpdate ::
  "'doc externals \<Rightarrow> client_id \<Rightarrow> string \<Rightarrow> 'doc hub \<Rightarrow> exception + 'doc hub" where
  "handleUpdate E clientId delta st =
     (case getRoomId clientId (cm st) of
        None \<Rightarrow> Inr st
      | Some roomId \<Rightarrow>
          (if falsy (Some roomId) then Inr st
           else (let update = base64_decode E delta
                 in case applyUpdate E roomId update (ym st) of
                      Inl e \<Rightarrow> Inl e
                    | Inr (applied, y1) \<Rightarrow>
                        Inr (st\<lparr>ym := y1,
                                socks := broadcastToRoom roomId (UpdateBroadcast delta clientId)
                                           (Some clientId) (cm st) (socks st)\<rparr>))))"

definition handlePresence ::
  "client_id \<Rightarrow> cursor \<Rightarrow> selection \<Rightarrow> viewport \<Rightarrow> 'doc hub \<Rightarrow> 'doc hub" where
  "handlePresence clientId cur sel vp st =
     (case getRoomId clientId (cm st) of
        None \<Rightarrow> st
      | Some roomId \<Rightarrow>
          (if falsy (Some roomId) then st
           else st\<lparr>socks := broadcastToRoom roomId (PresenceBroadcast clientId cur sel vp)
                               (Some clientId) (cm st) (socks st)\<rparr>))"

definition handleChat :: "client_id \<Rightarrow> string \<Rightarrow> string \<Rightarrow> time \<Rightarrow> 'doc hub \<Rightarrow> 'doc hub" where
  "handleChat clientId userName text timestamp st =
     (case getRoomId clientId (cm st) of
        None \<Rightarrow> st
      | Some roomId \<Rightarrow>
          (if falsy (Some roomId) then st
           else st\<lparr>socks := broadcastToRoom roomId (ChatBroadcast userName text timestamp clientId)
                               None (cm st) (socks st)\<rparr>))"

definition handleDisconnect :: "'doc externals \<Rightarrow> client_id \<Rightarrow> time \<Rightarrow> 'doc hub \<Rightarrow> 'doc hub" where
  "handleDisconnect E clientId now st =
     (case removeConnection clientId (cm st) of
        (None, _) \<Rightarrow> st
      | (Some (roomId, usr), m1) \<Rightarrow>
          (let d1 = roomParticipant_updateMany_leftAt clientId now (db st);
               s1 = broadcastToRoom roomId (LeaveBroadcast clientId (user_id usr)) None m1 (socks st);
               d2 = (if isRoomEmpty roomId m1 then saveSnapshot E roomId None (ym st) d1 else d1)
           in st\<lparr>cm := m1, db := d2, socks := s1\<rparr>))"

definition handleMessage ::
  "'doc externals \<Rightarrow> client_id \<Rightarrow> ws \<Rightarrow> string \<Rightarrow> time \<Rightarrow> 'doc hub \<Rightarrow> 'doc hub" where
  "handleMessage E clientId w data now st =
     (case JSON_parse E data of
        None \<Rightarrow>
          st\<lparr>socks := sendToClient clientId
                         (ErrorMessage ''INVALID_MESSAGE'' ''Failed to process message'')
                         (cm st) (socks st)\<rparr>
      | Some message \<Rightarrow>
          (case message of
             ConnectMessage roomId usr token \<Rightarrow> handleConnect E clientId w roomId usr now st
           | UpdateMessage delta \<Rightarrow>
               (case handleUpdate E clientId delta st of
                  Inl e \<Rightarrow>
                    st\<lparr>socks := sendToClient clientId
                                   (ErrorMessage ''INVALID_MESSAGE'' ''Failed to process message'')
                                   (cm st) (socks st)\<rparr>
                | Inr st' \<Rightarrow> st')
           | PresenceMessage cid cur sel vp \<Rightarrow> handlePresence clientId cur sel vp st
           | ChatMessage userName text timestamp \<Rightarrow> handleChat clientId userName text timestamp st
           | HeartbeatMessage t \<Rightarrow>
               st\<lparr>socks := sendToClient clientId (HeartbeatEcho now) (cm st) (socks st)\<rparr>
           | LeaveMessage \<Rightarrow> handleDisconnect E clientId now st
           | OtherMessage t \<Rightarrow> st))"

section \<open>The server loop (websocket/server.ts)\<close>

text \<open>What the server reacts to: a frame that arrives on a socket, the close of a socket,
  and the firing of the interval timer that \<open>setupSnapshotSaving\<close> installed for a room.
  These are all the places where the handlers and the document manager are called; the
  delayed \<open>destroyDocument\<close> in \<open>handleDisconnect\<close> is commented out in the source, so no
  event destroys a document.\<close>

datatype event =
    Message client_id ws string time
  | Close client_id time
  | SaveTimer room_id

definition interval_fire :: "'doc externals \<Rightarrow> room_id \<Rightarrow> 'doc hub \<Rightarrow> 'doc hub" where
  "interval_fire E roomId st =
     (case saveTimers (ym st) roomId of
        None \<Rightarrow> st
      | Some t \<Rightarrow> st\<lparr>db := saveSnapshot E roomId (documents (ym st) roomId) (ym st) (db st)\<rparr>)"

fun server_step :: "'doc externals \<Rightarrow> event \<Rightarrow> 'doc hub \<Rightarrow> 'doc hub" where
  "server_step E (Message clientId w data now) st = handleMessage E clientId w data now st"
| "server_step E (Close clientId now) st = handleDisconnect E clientId now st"
| "server_step E (SaveTimer roomId) st = interval_fire E roomId st"

fun server_run :: "'doc externals \<Rightarrow> event list \<Rightarrow> 'doc hub \<Rightarrow> 'doc hub" where
  "server_run E [] st = st"
| "server_run E (ev # evs) st = server_run E evs (server_step E ev st)"

section \<open>Who is sent a frame\<close>

text \<open>Client \<open>c\<close> is sent a frame on socket \<open>w\<close> by a broadcast that excludes \<open>ex\<close>: it is
  not the excluded client, its connection holds \<open>w\<close>, and \<open>w\<close> is open. \<open>push\<close> appends
  frames to what a socket was sent. In \<open>sockets_distinct\<close> no two clients share a socket: the
  server makes one client id for each accepted socket.\<close>

definition receives ::
  "client_id option \<Rightarrow> (client_id \<rightharpoonup> client_connection) \<Rightarrow> sockets \<Rightarrow> ws \<Rightarrow> client_id \<Rightarrow> bool" where
  "receives ex conns ss w c \<longleftrightarrow>
     Some c \<noteq> ex \<and> (case conns c of Some k \<Rightarrow> conn_ws k = w | None \<Rightarrow> False) \<and>
     readyState (ss w) = OPEN"

definition push :: "server_message list \<Rightarrow> socket \<Rightarrow> socket" where
  "push fs s = s\<lparr>sent := sent s @ fs\<rparr>"

definition sockets_distinct :: "connection_manager \<Rightarrow> bool" where
  "sockets_distinct m \<longleftrightarrow>
     (\<forall>c c' k k'. connections m c = Some k \<and> connections m c' = Some k' \<and> conn_ws k = conn_ws k'
        \<longrightarrow> c = c')"

section \<open>Notions for the statements about snapshots and frames\<close>

text \<open>The snapshot rows of a room, in the order of the table.\<close>

definition room_snapshots :: "room_id \<Rightarrow> snapshot_row list \<Rightarrow> snapshot_row list" where
  "room_snapshots r rows = filter (\<lambda>s. snap_roomId s = r) rows"

text \<open>The row that \<open>saveSnapshot\<close> creates for a document of room \<open>r\<close> when the table holds
  \<open>rows\<close>.\<close>

definition new_snapshot :: "'doc externals \<Rightarrow> room_id \<Rightarrow> 'doc \<Rightarrow> snapshot_row list \<Rightarrow> snapshot_row" where
  "new_snapshot E r document rows =
     \<lparr>snap_id = fresh_snapshot_id rows, snap_roomId = r,
      snap_snapshotData = Y_encodeStateAsUpdate E document,
      snap_stateVector = Y_encodeStateVector E document,
      snap_version = next_version (roomSnapshot_findFirst_desc r rows)\<rparr>"

text \<open>Row \<open>s\<close> is a snapshot of room \<open>r\<close> with the highest version of the room.\<close>

definition is_newest_snapshot :: "room_id \<Rightarrow> snapshot_row list \<Rightarrow> snapshot_row \<Rightarrow> bool" where
  "is_newest_snapshot r rows s \<longleftrightarrow>
     s \<in> set rows \<and> snap_roomId s = r \<and>
     (\<forall>s' \<in> set rows. snap_roomId s' = r \<longrightarrow> snap_version s' \<le> snap_version s)"

text \<open>The frame is a sync-response.\<close>

definition is_sync_response :: "server_message \<Rightarrow> bool" where
  "is_sync_response f = (case f of SyncResponse b ps \<Rightarrow> True | _ \<Rightarrow> False)"

text \<open>No connection of the registry holds socket \<open>w\<close>.\<close>

definition socket_free :: "connection_manager \<Rightarrow> ws \<Rightarrow> bool" where
  "socket_free m w \<longleftrightarrow> (\<forall>c k. connections m c = Some k \<longrightarrow> conn_ws k \<noteq> w)"

text \<open>The entry that \<open>getRoomParticipants\<close> lists for a client with the given connection.\<close>

definition participant_of :: "client_id \<Rightarrow> client_connection \<Rightarrow> participant" where
  "participant_of clientId connection =
     \<lparr>part_userId = user_id (conn_user connection), part_clientId = clientId,
      part_user = conn_user connection, part_role = Editor,
      part_joinedAt = conn_joinedAt connection\<rparr>"

text \<open>The server makes one client id for each socket it accepts and passes both to every
  call of \<open>handleMessage\<close> for that socket: with \<open>sock\<close> the socket of each client id, an
  event is \<open>event_on sock\<close> when its frame arrives on the socket of its client. In
  \<open>sockets_follow\<close> every connection of the registry holds the socket of its client.\<close>

fun event_on :: "(client_id \<Rightarrow> ws) \<Rightarrow> event \<Rightarrow> bool" where
  "event_on sock (Message clientId w data now) = (w = sock clientId)"
| "event_on sock (Close clientId now) = True"
| "event_on sock (SaveTimer roomId) = True"

definition sockets_follow :: "(client_id \<Rightarrow> ws) \<Rightarrow> connection_manager \<Rightarrow> bool" where
  "sockets_follow sock m \<longleftrightarrow> (\<forall>c k. connections m c = Some k \<longrightarrow> conn_ws k = sock c)"

section \<open>The server at start, and examples\<close>

text \<open>\<^verbatim>\<open>createWebSocketServer\<close> builds an empty registry and a document manager with the
  default save interval of 30000 ms. The store is empty before the first room is made, and
  a socket that has just been accepted is open and has been sent nothing.\<close>

definition new_database :: database where
  "new_database = \<lparr>rooms = Map.empty, roomParticipants = [], roomSnapshots = []\<rparr>"

definition new_sockets :: sockets where
  "new_sockets = (\<lambda>w. \<lparr>readyState = OPEN, sent = []\<rparr>)"

definition createWebSocketServer :: "'doc hub" where
  "createWebSocketServer =
     \<lparr>cm = new_ConnectionManager, ym = new_YjsDocumentManager 30000, db = new_database,
      socks = new_sockets\<rparr>"

text \<open>A stand-in for the libraries, for the examples only: a document is the list of the
  updates applied to it, the only update that is not thrown on is the empty one (the
  bytes 0, 0, in base64 AAA=), and the parser knows four inputs.\<close>

definition demo_parse :: "string \<Rightarrow> client_message option" where
  "demo_parse s =
     (if s = ''ping'' then Some (OtherMessage ''ping'')
      else if s = ''update AAEC'' then Some (UpdateMessage ''AAEC'')
      else if s = ''update AAA='' then Some (UpdateMessage ''AAA='')
      else if s = ''presence'' then Some (PresenceMessage ''c1'' (Some (10, 20)) None None)
      else None)"

definition demo_decode :: "string \<Rightarrow> bytes" where
  "demo_decode s = (if s = ''AAEC'' then [0, 1, 2] else if s = ''AAA='' then [0, 0] else [])"

definition demo_externals :: "bytes list externals" where
  "demo_externals =
     \<lparr>Y_Doc = [], Y_applyUpdate = (\<lambda>d u. d @ [u]), Y_throws = (\<lambda>d u. u \<noteq> [0, 0]),
      Y_encodeStateAsUpdate = concat, Y_encodeStateVector = (\<lambda>d. [length d]),
      base64_decode = demo_decode, base64_encode = map char_of, JSON_parse = demo_parse\<rparr>"

definition user_A :: user where
  "user_A = \<lparr>user_id = ''u1'', user_name = ''A'', user_color = ''#f00''\<rparr>"

definition user_B :: user where
  "user_B = \<lparr>user_id = ''u2'', user_name = ''B'', user_color = ''#0f0''\<rparr>"

text \<open>Client c1 is attached to room R1 and then, still attached, to room R2; and a sequence
  in which a client is attached while it has no connection or, once, again to the room it
  is in.\<close>

definition reattach_calls :: "registry_call list" where
  "reattach_calls = [Add ''c1'' 0 ''R1'' user_A 0, Add ''c1'' 0 ''R2'' user_A 1]"

definition churn_calls :: "registry_call list" where
  "churn_calls =
     [Add ''c1'' 0 ''R1'' user_A 0, Add ''c2'' 1 ''R1'' user_B 1, Add ''c1'' 0 ''R1'' user_A 2,
      Remove ''c1'', Add ''c1'' 2 ''R2'' user_A 3, Remove ''c2'', Remove ''c2'']"

text \<open>Client cA joins room R1 on socket 1; then client cB joins it on socket 2.\<close>

definition st_A :: "bytes list hub" where
  "st_A = handleConnect demo_externals ''cA'' 1 ''R1'' user_A 100 createWebSocketServer"

definition st_AB :: "bytes list hub" where
  "st_AB = handleConnect demo_externals ''cB'' 2 ''R1'' user_B 101 st_A"

text \<open>A participant row of client c1 that is not closed.\<close>

definition open_row :: participant_row where
  "open_row = \<lparr>prow_roomId = ''R1'', prow_userId = ''u1'', prow_clientId = ''c1'',
      prow_userName = ''A'', prow_userColor = ''#f00'', prow_role = Editor,
      prow_joinedAt = 0, prow_leftAt = None\<rparr>"

text \<open>Client cB sends a second connect frame for room R1.\<close>

definition st_AB2 :: "bytes list hub" where
  "st_AB2 = handleConnect demo_externals ''cB'' 2 ''R1'' user_B 102 st_AB"

text \<open>Client cA, in room R1, sends a connect frame for room R2; then client cB joins room
  R1 on socket 2.\<close>

definition st_A2 :: "bytes list hub" where
  "st_A2 = handleConnect demo_externals ''cA'' 1 ''R2'' user_A 101 st_A"

definition st_A2B :: "bytes list hub" where
  "st_A2B = handleConnect demo_externals ''cB'' 2 ''R1'' user_B 102 st_A2"

text \<open>The same two clients, joining the room whose id is the empty string.\<close>

definition st_E :: "bytes list hub" where
  "st_E = handleConnect demo_externals ''cB'' 2 [] user_B 101
            (handleConnect demo_externals ''cA'' 1 [] user_A 100 createWebSocketServer)"

text \<open>A document with one update, and a table with ten snapshots of room R1 and one of
  room R2.\<close>

definition demo_doc :: "bytes list" where
  "demo_doc = [1, 2] # []"

definition snap :: "nat \<Rightarrow> room_id \<Rightarrow> int \<Rightarrow> snapshot_row" where
  "snap i r v = \<lparr>snap_id = i, snap_roomId = r, snap_snapshotData = [], snap_stateVector = [],
                snap_version = v\<rparr>"

definition ten_rows :: "snapshot_row list" where
  "ten_rows =
     [snap 0 ''R1'' 1, snap 1 ''R1'' 2, snap 2 ''R1'' 3, snap 3 ''R2'' 1, snap 4 ''R1'' 4,
      snap 5 ''R1'' 5, snap 6 ''R1'' 6, snap 7 ''R1'' 7, snap 8 ''R1'' 8, snap 9 ''R1'' 9,
      snap 10 ''R1'' 10]"

text \<open>The save of the document of room R1 in state \<open>st_A\<close>, started twice: by the interval
  timer of the room and by the disconnect of its last member. In \<open>overlapped\<close> the two
  saves take turns, call by call, on an empty table; in \<open>overlapped_prune\<close> the table has
  ten snapshots of the room, and the second save reads the newest version and creates its
  row between the \<^verbatim>\<open>findMany\<close> and the \<^verbatim>\<open>deleteMany\<close> of the first.\<close>

definition save_R1 :: save_task where
  "save_R1 = save_start demo_externals ''R1'' []"

definition overlapped :: "save_task \<times> save_task \<times> snapshot_row list" where
  "overlapped =
     overlap [FirstSave, SecondSave, FirstSave, SecondSave, FirstSave, SecondSave,
              FirstSave, SecondSave]
       save_R1 save_R1 []"

definition overlapped_prune :: "save_task \<times> save_task \<times> snapshot_row list" where
  "overlapped_prune =
     overlap [FirstSave, FirstSave, FirstSave, SecondSave, SecondSave, FirstSave]
       save_R1 save_R1 ten_rows"

section \<open>Properties of the registry\<close>

lemma set_set_add [simp]: "set (set_add x xs) = insert x (set xs)"
  by (auto simp: set_add_def)

lemma distinct_set_add [simp]: "distinct xs \<Longrightarrow> distinct (set_add x xs)"
  by (simp add: set_add_def)

lemma set_add_not_Nil [simp]: "set_add x xs \<noteq> []"
  by (simp add: set_add_def) auto

lemma set_set_delete [simp]: "set (set_delete x xs) = set xs - {x}"
  by (auto simp: set_delete_def)

lemma distinct_set_delete [simp]: "distinct xs \<Longrightarrow> distinct (set_delete x xs)"
  by (simp add: set_delete_def)

lemma registry_inv_new: "registry_inv new_ConnectionManager"
  by (simp add: registry_inv_def indexes_agree_def no_empty_bucket_def buckets_distinct_def
      new_ConnectionManager_def)

lemma registry_inv_one_room:
  assumes "registry_inv m"
  shows "one_room_per_client m"
  unfolding one_room_per_client_def
proof (intro allI impI)
  fix clientId r1 r2 s1 s2
  assume h: "roomClients m r1 = Some s1 \<and> clientId \<in> set s1 \<and>
             roomClients m r2 = Some s2 \<and> clientId \<in> set s2"
  from assms have ag: "indexes_agree m" by (simp add: registry_inv_def)
  from h ag obtain c1 where c1: "connections m clientId = Some c1" "conn_roomId c1 = r1"
    unfolding indexes_agree_def by blast
  from h ag obtain c2 where c2: "connections m clientId = Some c2" "conn_roomId c2 = r2"
    unfolding indexes_agree_def by blast
  from c1 c2 show "r1 = r2" by simp
qed

lemma indexes_agree_bucket:
  "indexes_agree m \<longleftrightarrow>
     (\<forall>c r. c \<in> set (bucket m r) \<longleftrightarrow> (\<exists>k. connections m c = Some k \<and> conn_roomId k = r))"
proof -
  have "(\<exists>s. roomClients m r = Some s \<and> c \<in> set s) \<longleftrightarrow> c \<in> set (bucket m r)" for c r
    by (cases "roomClients m r") (simp_all add: bucket_def)
  then show ?thesis by (simp add: indexes_agree_def)
qed

lemma connections_add [simp]:
  "connections (addConnection c w r u t m) =
     (connections m)(c \<mapsto> \<lparr>conn_ws = w, conn_roomId = r, conn_user = u, conn_joinedAt = t\<rparr>)"
  by (simp add: addConnection_def Let_def)

lemma roomClients_add [simp]:
  "roomClients (addConnection c w r u t m) = (roomClients m)(r \<mapsto> set_add c (bucket m r))"
  by (auto simp: addConnection_def Let_def bucket_def set_add_def split: option.splits)

lemma bucket_add:
  "bucket (addConnection c w r u t m) r' = (if r' = r then set_add c (bucket m r) else bucket m r')"
  by (simp add: bucket_def)

lemma removeConnection_None [simp]:
  "connections m c = None \<Longrightarrow> removeConnection c m = (None, m)"
  by (simp add: removeConnection_def)

lemma connections_remove [simp]:
  "connections (snd (removeConnection c m)) = (connections m)(c := None)"
  by (auto simp: removeConnection_def Let_def split: option.splits)

lemma bucket_remove:
  "connections m c = Some k \<Longrightarrow>
   bucket (snd (removeConnection c m)) r =
     (if r = conn_roomId k then set_delete c (bucket m r) else bucket m r)"
  by (auto simp: removeConnection_def Let_def bucket_def set_delete_def split: option.splits)

lemma roomClients_remove_Some:
  "connections m c = Some k \<Longrightarrow> roomClients (snd (removeConnection c m)) r = Some s \<Longrightarrow>
   s \<noteq> [] \<or> (r \<noteq> conn_roomId k \<and> roomClients m r = Some s)"
  by (auto simp: removeConnection_def Let_def split: option.splits if_splits)

lemma registry_inv_bucket:
  "registry_inv m \<longleftrightarrow>
     (\<forall>c r. c \<in> set (bucket m r) \<longleftrightarrow> (\<exists>k. connections m c = Some k \<and> conn_roomId k = r)) \<and>
     (\<forall>r. roomClients m r \<noteq> Some []) \<and> (\<forall>r. distinct (bucket m r))"
proof -
  have "buckets_distinct m \<longleftrightarrow> (\<forall>r. distinct (bucket m r))"
    by (auto simp: buckets_distinct_def bucket_def split: option.splits)
  moreover have "no_empty_bucket m \<longleftrightarrow> (\<forall>r. roomClients m r \<noteq> Some [])"
    by (auto simp: no_empty_bucket_def)
  ultimately show ?thesis
    by (simp add: registry_inv_def indexes_agree_bucket)
qed

lemma registry_inv_add:
  assumes inv: "registry_inv m" and fresh: "connections m clientId = None"
  shows "registry_inv (addConnection clientId w roomId usr now m)"
proof -
  from inv have ag: "\<And>c r. c \<in> set (bucket m r) \<longleftrightarrow> (\<exists>k. connections m c = Some k \<and> conn_roomId k = r)"
    and ne: "\<And>r. roomClients m r \<noteq> Some []" and di: "\<And>r. distinct (bucket m r)"
    by (simp_all add: registry_inv_bucket)
  have "\<And>c r. c \<in> set (bucket (addConnection clientId w roomId usr now m) r) \<longleftrightarrow>
      (\<exists>k. connections (addConnection clientId w roomId usr now m) c = Some k \<and> conn_roomId k = r)"
    using fresh by (auto simp: bucket_add ag)
  moreover have "\<And>r. roomClients (addConnection clientId w roomId usr now m) r \<noteq> Some []"
    using ne by simp
  moreover have "\<And>r. distinct (bucket (addConnection clientId w roomId usr now m) r)"
    using di by (simp add: bucket_add)
  ultimately show ?thesis by (simp only: registry_inv_bucket) blast
qed

lemma registry_inv_remove:
  assumes inv: "registry_inv m"
  shows "registry_inv (snd (removeConnection clientId m))"
proof (cases "connections m clientId")
  case None
  then show ?thesis using inv by simp
next
  case (Some k)
  from inv have ag: "\<And>c r. c \<in> set (bucket m r) \<longleftrightarrow> (\<exists>k. connections m c = Some k \<and> conn_roomId k = r)"
    and ne: "\<And>r. roomClients m r \<noteq> Some []" and di: "\<And>r. distinct (bucket m r)"
    by (simp_all add: registry_inv_bucket)
  let ?m = "snd (removeConnection clientId m)"
  have "\<And>c r. c \<in> set (bucket ?m r) \<longleftrightarrow> (\<exists>k. connections ?m c = Some k \<and> conn_roomId k = r)"
    using Some by (auto simp: bucket_remove ag)
  moreover have "\<And>r. roomClients ?m r \<noteq> Some []"
    using roomClients_remove_Some[OF Some] ne by blast
  moreover have "\<And>r. distinct (bucket ?m r)"
    using di Some by (simp add: bucket_remove)
  ultimately show ?thesis by (simp only: registry_inv_bucket) blast
qed

lemma registry_inv_readd:
  assumes inv: "registry_inv m" and old: "connections m clientId = Some k"
    and same: "conn_roomId k = roomId"
  shows "registry_inv (addConnection clientId w roomId usr now m)"
proof -
  from inv have ag: "\<And>c r. c \<in> set (bucket m r) \<longleftrightarrow> (\<exists>k. connections m c = Some k \<and> conn_roomId k = r)"
    and ne: "\<And>r. roomClients m r \<noteq> Some []" and di: "\<And>r. distinct (bucket m r)"
    by (simp_all add: registry_inv_bucket)
  have "\<And>c r. c \<in> set (bucket (addConnection clientId w roomId usr now m) r) \<longleftrightarrow>
      (\<exists>k. connections (addConnection clientId w roomId usr now m) c = Some k \<and> conn_roomId k = r)"
    using old same by (auto simp: bucket_add ag)
  moreover have "\<And>r. roomClients (addConnection clientId w roomId usr now m) r \<noteq> Some []"
    using ne by simp
  moreover have "\<And>r. distinct (bucket (addConnection clientId w roomId usr now m) r)"
    using di by (simp add: bucket_add)
  ultimately show ?thesis by (simp only: registry_inv_bucket) blast
qed

lemma registry_inv_run:
  "registry_inv m \<Longrightarrow> adds_keep_room calls m \<Longrightarrow> registry_inv (registry_run calls m)"
proof (induction calls arbitrary: m)
  case Nil
  then show ?case by simp
next
  case (Cons c cs)
  show ?case
  proof (cases c)
    case (Add clientId w roomId usr now)
    have "registry_inv (registry_call_run c m)"
    proof (cases "connections m clientId")
      case None
      with Cons.prems Add show ?thesis by (simp add: registry_inv_add)
    next
      case (Some k)
      with Cons.prems Add have "conn_roomId k = roomId" by simp
      with Cons.prems(1) Some show ?thesis unfolding Add by (simp add: registry_inv_readd)
    qed
    moreover from Cons.prems Add have "adds_keep_room cs (registry_call_run c m)" by simp
    ultimately show ?thesis using Cons.IH by simp
  next
    case (Remove clientId)
    with Cons.prems have "registry_inv (registry_call_run c m)" "adds_keep_room cs (registry_call_run c m)"
      by (simp_all add: registry_inv_remove)
    then show ?thesis using Cons.IH by simp
  qed
qed

lemma no_empty_bucket_add:
  "no_empty_bucket m \<Longrightarrow> no_empty_bucket (addConnection c w r u t m)"
  by (simp add: no_empty_bucket_def)

lemma no_empty_bucket_remove:
  assumes "no_empty_bucket m"
  shows "no_empty_bucket (snd (removeConnection c m))"
proof (cases "connections m c")
  case None
  then show ?thesis using assms by simp
next
  case (Some k)
  show ?thesis
    unfolding no_empty_bucket_def
  proof (intro allI impI)
    fix r s
    assume "roomClients (snd (removeConnection c m)) r = Some s"
    then have "s \<noteq> [] \<or> (r \<noteq> conn_roomId k \<and> roomClients m r = Some s)"
      by (rule roomClients_remove_Some[OF Some])
    with assms show "s \<noteq> []" by (auto simp: no_empty_bucket_def)
  qed
qed

lemma no_empty_bucket_run:
  "no_empty_bucket m \<Longrightarrow> no_empty_bucket (registry_run calls m)"
proof (induction calls arbitrary: m)
  case Nil
  then show ?case by simp
next
  case (Cons c cs)
  have "no_empty_bucket (registry_call_run c m)"
    using Cons.prems by (cases c) (simp_all add: no_empty_bucket_add no_empty_bucket_remove)
  then show ?case using Cons.IH by simp
qed

lemma buckets_distinct_bucket: "buckets_distinct m \<longleftrightarrow> (\<forall>r. distinct (bucket m r))"
  by (auto simp: buckets_distinct_def bucket_def split: option.splits)

lemma buckets_distinct_add:
  "buckets_distinct m \<Longrightarrow> buckets_distinct (addConnection c w r u t m)"
  by (simp add: buckets_distinct_bucket bucket_add)

lemma buckets_distinct_remove:
  "buckets_distinct m \<Longrightarrow> buckets_distinct (snd (removeConnection c m))"
proof (cases "connections m c")
  case None
  then show "buckets_distinct m \<Longrightarrow> ?thesis" by simp
next
  case (Some k)
  then show "buckets_distinct m \<Longrightarrow> ?thesis"
    by (simp add: buckets_distinct_bucket bucket_remove)
qed

section \<open>Sending and broadcasting\<close>

lemma push_Nil [simp]: "push [] s = s"
  by (simp add: push_def)

lemma push_push [simp]: "push gs (push fs s) = push (fs @ gs) s"
  by (simp add: push_def)

lemma readyState_push [simp]: "readyState (push fs s) = readyState s"
  by (simp add: push_def)

lemma sent_push [simp]: "sent (push fs s) = sent s @ fs"
  by (simp add: push_def)

lemma ws_send_push: "ws_send w msg ss = ss(w := push [msg] (ss w))"
  by (simp add: ws_send_def push_def)

lemma receives_push [simp]:
  "receives ex conns (ss(w' := push fs (ss w'))) w = receives ex conns ss w"
  by (rule ext) (simp add: receives_def)

lemma broadcast_loop_at:
  "broadcast_loop cs msg ex conns ss w =
     push (replicate (length (filter (receives ex conns ss w) cs)) msg) (ss w)"
proof (induction cs arbitrary: ss)
  case Nil
  then show ?case by simp
next
  case (Cons c cs)
  show ?case
  proof (cases "Some c = ex")
    case True
    then show ?thesis using Cons.IH[of ss] by (simp add: receives_def)
  next
    case notex: False
    show ?thesis
    proof (cases "conns c")
      case None
      then show ?thesis using notex Cons.IH[of ss] by (simp add: receives_def)
    next
      case (Some k)
      show ?thesis
      proof (cases "readyState (ss (conn_ws k)) = OPEN")
        case False
        then have "\<not> receives ex conns ss w c"
          using Some by (auto simp: receives_def)
        then show ?thesis using notex Some False Cons.IH[of ss] by simp
      next
        case True
        have step: "broadcast_loop (c # cs) msg ex conns ss w =
                    broadcast_loop cs msg ex conns (ws_send (conn_ws k) msg ss) w"
          using notex Some True by simp
        show ?thesis
        proof (cases "conn_ws k = w")
          case eq: True
          then have "receives ex conns ss w c"
            using notex Some True by (simp add: receives_def)
          then show ?thesis
            unfolding step Cons.IH using eq
            by (simp add: ws_send_push replicate_append_same)
        next
          case neq: False
          then have "\<not> receives ex conns ss w c"
            using Some by (simp add: receives_def)
          then show ?thesis
            unfolding step Cons.IH using neq
            by (simp add: ws_send_push)
        qed
      qed
    qed
  qed
qed

lemma broadcastToRoom_at:
  "broadcastToRoom r msg ex m ss w =
     push (replicate (length (filter (receives ex (connections m) ss w) (bucket m r))) msg) (ss w)"
  by (cases "roomClients m r") (simp_all add: broadcastToRoom_def bucket_def broadcast_loop_at)

lemma sendToClient_at:
  "sendToClient c msg m ss w =
     (if receives None (connections m) ss w c then push [msg] (ss w) else ss w)"
  by (cases "connections m c") (auto simp: sendToClient_def receives_def ws_send_push)

lemma filter_eq_distinct:
  "distinct xs \<Longrightarrow> filter (\<lambda>x. x = c) xs = (if c \<in> set xs then [c] else [])"
  by (induction xs) auto


section \<open>The registry invariant\<close>

text \<open>Claim C3, as amended. In every state of the registry reached from the empty one by
  any sequence of calls of \<open>addConnection\<close> and \<open>removeConnection\<close>, no empty bucket is kept.
  When no \<open>addConnection\<close> of the sequence is for a client that has, at that moment, a
  connection for another room, the two indexes also agree (a client is in the bucket of
  room R iff its primary entry has room R) and every client is in at most one bucket. An
  attach of a client that is already in a room does not fail: \<open>addConnection\<close>, for every
  registry and client, sets the primary entry to the new connection and adds the client
  to the bucket of the new room, and changes no other entry and no other bucket.\<close>

theorem registry_invariant:
  "no_empty_bucket (registry_run calls new_ConnectionManager) \<and>
   (adds_keep_room calls new_ConnectionManager \<longrightarrow>
      indexes_agree (registry_run calls new_ConnectionManager) \<and>
      one_room_per_client (registry_run calls new_ConnectionManager)) \<and>
   connections (addConnection clientId w roomId usr now m) =
     (connections m)(clientId \<mapsto>
        \<lparr>conn_ws = w, conn_roomId = roomId, conn_user = usr, conn_joinedAt = now\<rparr>) \<and>
   roomClients (addConnection clientId w roomId usr now m) =
     (roomClients m)(roomId \<mapsto> set_add clientId (bucket m roomId))"
proof (intro conjI impI)
  have "no_empty_bucket new_ConnectionManager"
    using registry_inv_new by (simp add: registry_inv_def)
  then show "no_empty_bucket (registry_run calls new_ConnectionManager)"
    by (rule no_empty_bucket_run)
next
  assume "adds_keep_room calls new_ConnectionManager"
  with registry_inv_new have inv: "registry_inv (registry_run calls new_ConnectionManager)"
    by (rule registry_inv_run)
  then show "indexes_agree (registry_run calls new_ConnectionManager)"
    by (simp add: registry_inv_def)
  from inv show "one_room_per_client (registry_run calls new_ConnectionManager)"
    by (rule registry_inv_one_room)
qed simp_all

theorem registry_invariant_witness:
  "adds_keep_room churn_calls new_ConnectionManager \<and>
   indexes_agree (registry_run churn_calls new_ConnectionManager) \<and>
   one_room_per_client (registry_run churn_calls new_ConnectionManager) \<and>
   no_empty_bucket (registry_run churn_calls new_ConnectionManager)"
proof -
  have h: "adds_keep_room churn_calls new_ConnectionManager"
    by (simp add: churn_calls_def new_ConnectionManager_def)
  show ?thesis using h registry_invariant [of churn_calls] by simp
qed

text \<open>Claim C3 as stated fails: \<open>addConnection\<close> has no check for a client that is already
  in a room. A second call for client c1, now for room R2, succeeds, leaves c1 in the
  bucket of R1 and adds it to the bucket of R2, while the primary entry says R2.\<close>

theorem registry_reattach_counterexample:
  "roomClients (registry_run reattach_calls new_ConnectionManager) ''R1'' = Some [''c1''] \<and>
   roomClients (registry_run reattach_calls new_ConnectionManager) ''R2'' = Some [''c1''] \<and>
   getRoomId ''c1'' (registry_run reattach_calls new_ConnectionManager) = Some ''R2'' \<and>
   \<not> indexes_agree (registry_run reattach_calls new_ConnectionManager) \<and>
   \<not> one_room_per_client (registry_run reattach_calls new_ConnectionManager)"
proof -
  let ?m = "registry_run reattach_calls new_ConnectionManager"
  have r1: "roomClients ?m ''R1'' = Some [''c1'']"
    by (simp add: reattach_calls_def new_ConnectionManager_def bucket_def set_add_def)
  have r2: "roomClients ?m ''R2'' = Some [''c1'']"
    by (simp add: reattach_calls_def new_ConnectionManager_def bucket_def set_add_def)
  have g: "getRoomId ''c1'' ?m = Some ''R2''"
    by (simp add: reattach_calls_def new_ConnectionManager_def getRoomId_def)
  have "\<not> one_room_per_client ?m"
  proof
    assume "one_room_per_client ?m"
    with r1 r2 have "''R1'' = ''R2''"
      unfolding one_room_per_client_def by (metis list.set_intros(1))
    then show False by simp
  qed
  moreover have "\<not> indexes_agree ?m"
  proof
    assume a: "indexes_agree ?m"
    from r1 have "\<exists>s. roomClients ?m ''R1'' = Some s \<and> ''c1'' \<in> set s" by simp
    with a have "\<exists>k. connections ?m ''c1'' = Some k \<and> conn_roomId k = ''R1''"
      unfolding indexes_agree_def by blast
    with g show False by (auto simp: getRoomId_def)
  qed
  ultimately show ?thesis using r1 r2 g by simp
qed

section \<open>Snapshots of a room\<close>

lemma findMany_desc_set [simp]:
  "set (roomSnapshot_findMany_desc r rows) = {s \<in> set rows. snap_roomId s = r}"
  by (simp add: roomSnapshot_findMany_desc_def)

lemma findMany_desc_sorted:
  "sorted (map (\<lambda>s. - snap_version s) (roomSnapshot_findMany_desc r rows))"
  by (simp add: roomSnapshot_findMany_desc_def)

lemma findFirst_desc_None:
  "roomSnapshot_findFirst_desc r rows = None \<longleftrightarrow> (\<forall>s \<in> set rows. snap_roomId s \<noteq> r)"
proof -
  have "roomSnapshot_findFirst_desc r rows = None \<longleftrightarrow> roomSnapshot_findMany_desc r rows = []"
    by (simp add: roomSnapshot_findFirst_desc_def split: list.splits)
  also have "\<dots> \<longleftrightarrow> set (roomSnapshot_findMany_desc r rows) = {}"
    by (simp only: set_empty)
  also have "\<dots> \<longleftrightarrow> (\<forall>s \<in> set rows. snap_roomId s \<noteq> r)"
    unfolding findMany_desc_set by blast
  finally show ?thesis .
qed

lemma findFirst_desc_newest:
  assumes "roomSnapshot_findFirst_desc r rows = Some s"
  shows "is_newest_snapshot r rows s"
proof -
  from assms obtain rest where L: "roomSnapshot_findMany_desc r rows = s # rest"
    by (auto simp: roomSnapshot_findFirst_desc_def split: list.splits)
  have "s \<in> set (roomSnapshot_findMany_desc r rows)" by (simp add: L)
  then have mem: "s \<in> set rows" "snap_roomId s = r" by simp_all
  have top: "snap_version s' \<le> snap_version s" if "s' \<in> set rows" "snap_roomId s' = r" for s'
  proof -
    from that have "s' \<in> set (s # rest)" unfolding L[symmetric] by simp
    moreover have "sorted (map (\<lambda>s. - snap_version s) (s # rest))"
      using findMany_desc_sorted[of r rows] by (simp add: L)
    ultimately show ?thesis by auto
  qed
  show ?thesis using mem top by (simp add: is_newest_snapshot_def)
qed

lemma next_version_None [simp]: "next_version None = 1"
  by (simp add: next_version_def)

lemma next_version_Some [simp]: "next_version (Some s) = snap_version s + 1"
  by (simp add: next_version_def)

lemma fold_max_ge: "(a::nat) \<le> fold max xs a"
proof (induction xs arbitrary: a)
  case Nil
  then show ?case by simp
next
  case (Cons x xs)
  have "a \<le> max x a" by simp
  also have "\<dots> \<le> fold max xs (max x a)" by (rule Cons.IH)
  finally show ?case by simp
qed

lemma fold_max_mem: "(x::nat) \<in> set xs \<Longrightarrow> x \<le> fold max xs a"
proof (induction xs arbitrary: a)
  case Nil
  then show ?case by simp
next
  case (Cons y ys)
  show ?case
  proof (cases "x = y")
    case True
    have "x \<le> max y a" using True by simp
    also have "\<dots> \<le> fold max ys (max y a)" by (rule fold_max_ge)
    finally show ?thesis by simp
  next
    case False
    with Cons.prems have "x \<in> set ys" by simp
    then show ?thesis using Cons.IH by simp
  qed
qed

lemma fresh_snapshot_id_gt: "s \<in> set rows \<Longrightarrow> snap_id s < fresh_snapshot_id rows"
proof -
  assume "s \<in> set rows"
  then have "snap_id s \<in> set (map snap_id rows)" by simp
  then have "snap_id s \<le> fold max (map snap_id rows) 0" by (rule fold_max_mem)
  then show ?thesis by (simp add: fresh_snapshot_id_def)
qed

lemma new_version_eq:
  "next_version (roomSnapshot_findFirst_desc r rows) =
     (if room_snapshots r rows = [] then 1
      else Max (snap_version ` set (room_snapshots r rows)) + 1)"
proof (cases "roomSnapshot_findFirst_desc r rows")
  case None
  then have "\<forall>s \<in> set rows. snap_roomId s \<noteq> r" by (simp add: findFirst_desc_None)
  then have "room_snapshots r rows = []"
    by (simp add: room_snapshots_def filter_empty_conv)
  with None show ?thesis by simp
next
  case (Some s)
  then have n: "is_newest_snapshot r rows s" by (rule findFirst_desc_newest)
  then have mem: "s \<in> set (room_snapshots r rows)"
    by (simp add: is_newest_snapshot_def room_snapshots_def)
  have "Max (snap_version ` set (room_snapshots r rows)) = snap_version s"
  proof (rule Max_eqI)
    show "finite (snap_version ` set (room_snapshots r rows))" by simp
    show "snap_version s \<in> snap_version ` set (room_snapshots r rows)" using mem by simp
    fix v assume "v \<in> snap_version ` set (room_snapshots r rows)"
    then show "v \<le> snap_version s"
      using n by (auto simp: is_newest_snapshot_def room_snapshots_def)
  qed
  moreover have "room_snapshots r rows \<noteq> []" using mem by auto
  ultimately show ?thesis using Some by simp
qed

lemma new_version_greater:
  assumes "s \<in> set rows" and "snap_roomId s = r"
  shows "snap_version s < next_version (roomSnapshot_findFirst_desc r rows)"
proof (cases "roomSnapshot_findFirst_desc r rows")
  case None
  then show ?thesis using assms by (simp add: findFirst_desc_None)
next
  case (Some t)
  then have "is_newest_snapshot r rows t" by (rule findFirst_desc_newest)
  then have "snap_version s \<le> snap_version t"
    using assms by (simp add: is_newest_snapshot_def)
  then show ?thesis using Some by simp
qed

lemma length_filter_notin:
  assumes "distinct ys" and "distinct zs" and "set zs \<subseteq> set ys"
  shows "length (filter (\<lambda>y. y \<notin> set zs) ys) = length ys - length zs"
proof -
  have "length (filter (\<lambda>y. y \<notin> set zs) ys) = card ({y. y \<notin> set zs} \<inter> set ys)"
    using assms(1) by (rule distinct_length_filter)
  also have "{y. y \<notin> set zs} \<inter> set ys = set ys - set zs" by blast
  also have "card (set ys - set zs) = card (set ys) - card (set zs)"
    using assms(3) by (intro card_Diff_subset) simp_all
  also have "\<dots> = length ys - length zs"
    using assms(1,2) by (simp add: distinct_card)
  finally show ?thesis .
qed

lemma deleteMany_by_row:
  assumes ids: "distinct (map snap_id rows)" and sub: "set old \<subseteq> set rows"
  shows "roomSnapshot_deleteMany (map snap_id old) rows = filter (\<lambda>s. s \<notin> set old) rows"
  unfolding roomSnapshot_deleteMany_def
proof (rule filter_cong[OF refl])
  fix s assume s: "s \<in> set rows"
  have inj: "inj_on snap_id (set rows)" using ids by (simp add: distinct_map)
  have "snap_id s \<in> set (map snap_id old) \<longleftrightarrow> s \<in> set old"
  proof
    assume "snap_id s \<in> set (map snap_id old)"
    then obtain t where t: "t \<in> set old" "snap_id t = snap_id s" by auto
    with sub have "t \<in> set rows" by blast
    with inj s t have "t = s" by (auto dest: inj_onD)
    with t show "s \<in> set old" by simp
  next
    assume "s \<in> set old"
    then show "snap_id s \<in> set (map snap_id old)" by simp
  qed
  then show "(snap_id s \<notin> set (map snap_id old)) = (s \<notin> set old)" by simp
qed

lemma findMany_desc_length [simp]:
  "length (roomSnapshot_findMany_desc r rows) = length (room_snapshots r rows)"
  by (simp add: roomSnapshot_findMany_desc_def room_snapshots_def)

lemma findMany_desc_distinct:
  "distinct rows \<Longrightarrow> distinct (roomSnapshot_findMany_desc r rows)"
  by (simp add: roomSnapshot_findMany_desc_def)

lemma findMany_desc_order:
  assumes "k \<in> set (take n (roomSnapshot_findMany_desc r rows))"
    and "g \<in> set (drop n (roomSnapshot_findMany_desc r rows))"
  shows "snap_version g \<le> snap_version k"
proof -
  let ?L = "roomSnapshot_findMany_desc r rows"
  have "sorted (map (\<lambda>s. - snap_version s) (take n ?L @ drop n ?L))"
    using findMany_desc_sorted[of r rows] by simp
  then have "\<forall>x \<in> set (take n ?L). \<forall>y \<in> set (drop n ?L). - snap_version x \<le> - snap_version y"
    unfolding map_append sorted_append by auto
  with assms show ?thesis by auto
qed

lemma set_room_snapshots [simp]:
  "set (room_snapshots r rows) = {s \<in> set rows. snap_roomId s = r}"
  by (simp add: room_snapshots_def)

lemma new_snapshot_sel [simp]:
  "snap_id (new_snapshot E r document rows) = fresh_snapshot_id rows"
  "snap_roomId (new_snapshot E r document rows) = r"
  "snap_snapshotData (new_snapshot E r document rows) = Y_encodeStateAsUpdate E document"
  "snap_stateVector (new_snapshot E r document rows) = Y_encodeStateVector E document"
  "snap_version (new_snapshot E r document rows) = next_version (roomSnapshot_findFirst_desc r rows)"
  by (simp_all add: new_snapshot_def)

lemma new_snapshot_notin: "new_snapshot E r document rows \<notin> set rows"
proof
  assume "new_snapshot E r document rows \<in> set rows"
  then have "snap_id (new_snapshot E r document rows) < fresh_snapshot_id rows"
    by (rule fresh_snapshot_id_gt)
  then show False by simp
qed

lemma new_snapshot_id_notin: "snap_id (new_snapshot E r document rows) \<notin> snap_id ` set rows"
proof
  assume "snap_id (new_snapshot E r document rows) \<in> snap_id ` set rows"
  then obtain s where "s \<in> set rows" "snap_id s = fresh_snapshot_id rows" by auto
  then show False using fresh_snapshot_id_gt[of s rows] by simp
qed

lemma save_alone_rows:
  "save_alone (save_start E r document) rows =
     (if length (drop 10 (roomSnapshot_findMany_desc r
           (roomSnapshot_create r (Y_encodeStateAsUpdate E document) (Y_encodeStateVector E document)
              (next_version (roomSnapshot_findFirst_desc r rows)) rows))) > 0
      then roomSnapshot_deleteMany
             (map snap_id (drop 10 (roomSnapshot_findMany_desc r
                (roomSnapshot_create r (Y_encodeStateAsUpdate E document)
                   (Y_encodeStateVector E document)
                   (next_version (roomSnapshot_findFirst_desc r rows)) rows))))
             (roomSnapshot_create r (Y_encodeStateAsUpdate E document) (Y_encodeStateVector E document)
                (next_version (roomSnapshot_findFirst_desc r rows)) rows)
      else roomSnapshot_create r (Y_encodeStateAsUpdate E document) (Y_encodeStateVector E document)
             (next_version (roomSnapshot_findFirst_desc r rows)) rows)"
  by (simp add: save_alone_def save_start_def save_step_def Let_def del: findMany_desc_length)

lemma saveSnapshot_rows:
  assumes doc: "(case doc of Some x \<Rightarrow> Some x | None \<Rightarrow> documents y r) = Some document"
    and ids: "distinct (map snap_id (roomSnapshots d))"
  shows "saveSnapshot E r doc y d =
     d\<lparr>roomSnapshots :=
         filter (\<lambda>s. s \<notin> set (drop 10 (roomSnapshot_findMany_desc r
                   (roomSnapshots d @ [new_snapshot E r document (roomSnapshots d)]))))
           (roomSnapshots d @ [new_snapshot E r document (roomSnapshots d)])\<rparr>"
proof -
  let ?new = "new_snapshot E r document (roomSnapshots d)"
  let ?rows1 = "roomSnapshots d @ [?new]"
  let ?old = "drop 10 (roomSnapshot_findMany_desc r ?rows1)"
  have c: "roomSnapshot_create r (Y_encodeStateAsUpdate E document) (Y_encodeStateVector E document)
             (next_version (roomSnapshot_findFirst_desc r (roomSnapshots d))) (roomSnapshots d) = ?rows1"
    by (simp add: roomSnapshot_create_def new_snapshot_def)
  have ids1: "distinct (map snap_id ?rows1)"
    using ids new_snapshot_id_notin[of E r document "roomSnapshots d"] by simp
  have sub: "set ?old \<subseteq> set ?rows1"
  proof -
    have "set ?old \<subseteq> set (roomSnapshot_findMany_desc r ?rows1)" by (rule set_drop_subset)
    also have "\<dots> \<subseteq> set ?rows1" unfolding findMany_desc_set by blast
    finally show ?thesis .
  qed
  have del: "roomSnapshot_deleteMany (map snap_id ?old) ?rows1 = filter (\<lambda>s. s \<notin> set ?old) ?rows1"
    using ids1 sub by (rule deleteMany_by_row)
  have fin: "(if length ?old > 0 then roomSnapshot_deleteMany (map snap_id ?old) ?rows1 else ?rows1)
          = filter (\<lambda>s. s \<notin> set ?old) ?rows1"
  proof (cases "length ?old > 0")
    case True
    then show ?thesis by (simp only: del if_True)
  next
    case False
    then have nil: "?old = []" by simp
    have e: "filter (\<lambda>s. s \<notin> set ([]::snapshot_row list)) xs = xs" for xs by simp
    have "filter (\<lambda>s. s \<notin> set ?old) ?rows1 = ?rows1" unfolding nil by (rule e)
    with False show ?thesis by (simp only: if_False)
  qed
  have "saveSnapshot E r doc y d =
      d\<lparr>roomSnapshots :=
          (if length ?old > 0 then roomSnapshot_deleteMany (map snap_id ?old) ?rows1 else ?rows1)\<rparr>"
    unfolding saveSnapshot_def doc by (simp only: option.case save_alone_rows c)
  then show ?thesis by (simp only: fin)
qed

lemma new_snapshot_saved:
  assumes doc: "(case doc of Some x \<Rightarrow> Some x | None \<Rightarrow> documents y r) = Some document"
    and ids: "distinct (map snap_id (roomSnapshots d))"
  shows "new_snapshot E r document (roomSnapshots d) \<in> set (roomSnapshots (saveSnapshot E r doc y d))"
proof -
  let ?new = "new_snapshot E r document (roomSnapshots d)"
  let ?rows = "roomSnapshots d"
  let ?L = "roomSnapshot_findMany_desc r (?rows @ [?new])"
  have "?new \<notin> set (drop 10 ?L)"
  proof
    assume a: "?new \<in> set (drop 10 ?L)"
    then have "?new \<in> set ?L" by (rule in_set_dropD)
    then have "?L \<noteq> []" by (metis empty_iff list.set(1))
    then have "take 10 ?L \<noteq> []" by (simp only: take_eq_Nil) simp
    then obtain k where k: "k \<in> set (take 10 ?L)" by (meson last_in_set)
    from k a have le: "snap_version ?new \<le> snap_version k" by (rule findMany_desc_order)
    have "distinct (?rows @ [?new])"
      using ids new_snapshot_notin[of E r document ?rows] by (simp add: distinct_map)
    then have "distinct ?L" by (rule findMany_desc_distinct)
    then have "set (take 10 ?L) \<inter> set (drop 10 ?L) = {}"
      by (metis append_take_drop_id distinct_append)
    with k a have "k \<noteq> ?new" by auto
    moreover from k have "k \<in> set ?L" by (rule in_set_takeD)
    ultimately have "k \<in> set ?rows" "snap_roomId k = r" by auto
    then have "snap_version k < snap_version ?new" by (simp add: new_version_greater)
    with le show False by simp
  qed
  then show ?thesis by (simp add: saveSnapshot_rows[OF doc ids])
qed

text \<open>Claim C4, as amended. A save of a snapshot that runs alone (no other call of the
  store comes between its four calls), for a room whose document is present, on a table
  whose ids are distinct, creates a row whose version is the highest version of the room
  plus one, and 1 when the room has no snapshot; so the new version is greater than every
  earlier version of the room. After the pruning that follows, the room has at most 10
  rows (all of them when there are fewer), the new row among them, and every deleted row
  is a row of the room whose version is at most that of every row kept: the rows kept are
  the 10 of highest version. Rows of other rooms, and the other tables, are untouched.\<close>

theorem snapshot_version_and_retention:
  assumes ids: "distinct (map snap_id (roomSnapshots d))"
    and doc: "(case doc of Some x \<Rightarrow> Some x | None \<Rightarrow> documents y roomId) = Some document"
    and new: "new = new_snapshot E roomId document (roomSnapshots d)"
    and d': "d' = saveSnapshot E roomId doc y d"
  shows "snap_version new =
           (if room_snapshots roomId (roomSnapshots d) = [] then 1
            else Max (snap_version ` set (room_snapshots roomId (roomSnapshots d))) + 1) \<and>
         (\<forall>s \<in> set (room_snapshots roomId (roomSnapshots d)). snap_version s < snap_version new) \<and>
         new \<in> set (room_snapshots roomId (roomSnapshots d')) \<and>
         snap_id new \<notin> snap_id ` set (roomSnapshots d) \<and>
         snap_snapshotData new = Y_encodeStateAsUpdate E document \<and>
         snap_stateVector new = Y_encodeStateVector E document \<and>
         set (roomSnapshots d') \<subseteq> insert new (set (roomSnapshots d)) \<and>
         length (room_snapshots roomId (roomSnapshots d')) =
           min 10 (Suc (length (room_snapshots roomId (roomSnapshots d)))) \<and>
         (\<forall>kept \<in> set (room_snapshots roomId (roomSnapshots d')).
            \<forall>gone \<in> insert new (set (roomSnapshots d)) - set (roomSnapshots d').
              snap_roomId gone = roomId \<and> snap_version gone \<le> snap_version kept) \<and>
         (\<forall>r. r \<noteq> roomId \<longrightarrow>
            room_snapshots r (roomSnapshots d') = room_snapshots r (roomSnapshots d)) \<and>
         rooms d' = rooms d \<and> roomParticipants d' = roomParticipants d"
proof -
  let ?rows = "roomSnapshots d"
  let ?rows1 = "?rows @ [new]"
  let ?L = "roomSnapshot_findMany_desc roomId ?rows1"
  let ?old = "drop 10 ?L"
  have eq: "d' = d\<lparr>roomSnapshots := filter (\<lambda>s. s \<notin> set ?old) ?rows1\<rparr>"
    unfolding d' new using doc ids by (rule saveSnapshot_rows)
  have rows': "roomSnapshots d' = filter (\<lambda>s. s \<notin> set ?old) ?rows1"
    by (simp add: eq)
  have setrows': "set (roomSnapshots d') = insert new (set ?rows) - set ?old"
    unfolding rows' set_filter by auto
  have new_room: "snap_roomId new = roomId" by (simp add: new)
  have new_notin: "new \<notin> set ?rows" unfolding new by (rule new_snapshot_notin)
  have new_id: "snap_id new \<notin> snap_id ` set ?rows" unfolding new by (rule new_snapshot_id_notin)
  have dist_rows: "distinct ?rows" using ids by (simp add: distinct_map)
  have dist1: "distinct ?rows1" using dist_rows new_notin by simp
  have distL: "distinct ?L" using dist1 by (rule findMany_desc_distinct)
  have setL: "set ?L = insert new (set (room_snapshots roomId ?rows))"
    using new_room by auto
  have split: "set ?L = set (take 10 ?L) \<union> set ?old"
    by (metis append_take_drop_id set_append)
  have disj: "set (take 10 ?L) \<inter> set ?old = {}"
    using distL by (metis append_take_drop_id distinct_append)
  have p1: "snap_version new =
           (if room_snapshots roomId ?rows = [] then 1
            else Max (snap_version ` set (room_snapshots roomId ?rows)) + 1)"
    by (simp add: new new_version_eq)
  have p2: "\<forall>s \<in> set (room_snapshots roomId ?rows). snap_version s < snap_version new"
    by (simp add: new new_version_greater)
  have p3: "new \<in> set (room_snapshots roomId (roomSnapshots d'))"
    using new_snapshot_saved[OF doc ids, of E] new_room by (simp add: new d')
  have p7: "set (roomSnapshots d') \<subseteq> insert new (set ?rows)"
    unfolding setrows' by blast
  have comm: "room_snapshots r (roomSnapshots d') =
              filter (\<lambda>s. s \<notin> set ?old) (room_snapshots r ?rows1)" for r
    unfolding rows' room_snapshots_def filter_filter by (rule filter_cong) auto
  have p8: "length (room_snapshots roomId (roomSnapshots d')) =
           min 10 (Suc (length (room_snapshots roomId ?rows)))"
  proof -
    have dr: "distinct (room_snapshots roomId ?rows1)"
      using dist1 unfolding room_snapshots_def by (rule distinct_filter)
    have dold: "distinct ?old" using distL by (rule distinct_drop)
    have sub: "set ?old \<subseteq> set (room_snapshots roomId ?rows1)"
    proof -
      have "set ?old \<subseteq> set ?L" by (rule set_drop_subset)
      then show ?thesis by simp
    qed
    have "length (filter (\<lambda>s. s \<notin> set ?old) (room_snapshots roomId ?rows1)) =
          length (room_snapshots roomId ?rows1) - length ?old"
      using dr dold sub by (rule length_filter_notin)
    moreover have "length (room_snapshots roomId ?rows1) = Suc (length (room_snapshots roomId ?rows))"
      using new_room by (simp add: room_snapshots_def)
    ultimately show ?thesis by (simp add: comm)
  qed
  have p9: "\<forall>kept \<in> set (room_snapshots roomId (roomSnapshots d')).
            \<forall>gone \<in> insert new (set ?rows) - set (roomSnapshots d').
              snap_roomId gone = roomId \<and> snap_version gone \<le> snap_version kept"
  proof (intro ballI)
    fix kept gone
    assume k: "kept \<in> set (room_snapshots roomId (roomSnapshots d'))"
      and g: "gone \<in> insert new (set ?rows) - set (roomSnapshots d')"
    from g have gold: "gone \<in> set ?old" unfolding setrows' by blast
    then have "gone \<in> set ?L" using split by blast
    then have groom: "snap_roomId gone = roomId" by simp
    from k have "kept \<in> set (roomSnapshots d')" "snap_roomId kept = roomId" by simp_all
    then have "kept \<in> insert new (set ?rows)" "kept \<notin> set ?old" "snap_roomId kept = roomId"
      unfolding setrows' by blast+
    then have "kept \<in> set ?L" "kept \<notin> set ?old" by auto
    then have "kept \<in> set (take 10 ?L)" using split by blast
    then have "snap_version gone \<le> snap_version kept" using gold by (rule findMany_desc_order)
    with groom show "snap_roomId gone = roomId \<and> snap_version gone \<le> snap_version kept" by simp
  qed
  have p10: "\<forall>r. r \<noteq> roomId \<longrightarrow> room_snapshots r (roomSnapshots d') = room_snapshots r ?rows"
  proof (intro allI impI)
    fix r assume ne: "r \<noteq> roomId"
    have "filter (\<lambda>s. s \<notin> set ?old) (room_snapshots r ?rows1) = room_snapshots r ?rows1"
    proof (rule filter_True)
      show "\<forall>s \<in> set (room_snapshots r ?rows1). s \<notin> set ?old"
      proof
        fix s assume "s \<in> set (room_snapshots r ?rows1)"
        then have "snap_roomId s \<noteq> roomId" using ne by auto
        then have "s \<notin> set ?L" by simp
        then show "s \<notin> set ?old" using split by blast
      qed
    qed
    moreover have "room_snapshots r ?rows1 = room_snapshots r ?rows"
      using ne new_room by (simp add: room_snapshots_def)
    ultimately show "room_snapshots r (roomSnapshots d') = room_snapshots r ?rows"
      by (simp add: comm)
  qed
  have p11: "rooms d' = rooms d" "roomParticipants d' = roomParticipants d"
    by (simp_all add: eq)
  have p5: "snap_snapshotData new = Y_encodeStateAsUpdate E document"
    "snap_stateVector new = Y_encodeStateVector E document"
    by (simp_all add: new)
  from p1 p2 p3 new_id p5 p7 p8 p9 p10 p11 show ?thesis by (intro conjI)
qed

lemma snap_sel [simp]:
  "snap_id (snap i r v) = i" "snap_roomId (snap i r v) = r" "snap_version (snap i r v) = v"
  by (simp_all add: snap_def)

theorem snapshot_version_and_retention_witness:
  "distinct (map snap_id ten_rows) \<and>
   snap_version (new_snapshot demo_externals ''R1'' demo_doc ten_rows) = 11 \<and>
   length (room_snapshots ''R1'' (roomSnapshots
     (saveSnapshot demo_externals ''R1'' (Some demo_doc) (new_YjsDocumentManager 30000)
        (new_database\<lparr>roomSnapshots := ten_rows\<rparr>)))) = 10"
proof -
  let ?d = "new_database\<lparr>roomSnapshots := ten_rows\<rparr>"
  let ?y = "new_YjsDocumentManager 30000 :: bytes list yjs_manager"
  let ?new = "new_snapshot demo_externals ''R1'' demo_doc ten_rows"
  let ?d' = "saveSnapshot demo_externals ''R1'' (Some demo_doc) ?y ?d"
  have h1: "distinct (map snap_id (roomSnapshots ?d))" by (simp add: ten_rows_def)
  have h2: "(case Some demo_doc of Some x \<Rightarrow> Some x | None \<Rightarrow> documents ?y ''R1'') = Some demo_doc"
    by simp
  have h3: "?new = new_snapshot demo_externals ''R1'' demo_doc (roomSnapshots ?d)" by simp
  note t = snapshot_version_and_retention [OF h1 h2 h3 refl]
  have rs: "room_snapshots ''R1'' (roomSnapshots ?d) =
      [snap 0 ''R1'' 1, snap 1 ''R1'' 2, snap 2 ''R1'' 3, snap 4 ''R1'' 4,
      snap 5 ''R1'' 5, snap 6 ''R1'' 6, snap 7 ''R1'' 7, snap 8 ''R1'' 8, snap 9 ''R1'' 9,
      snap 10 ''R1'' 10]"
    by (simp add: room_snapshots_def ten_rows_def)
  from t have "snap_version ?new = (if room_snapshots ''R1'' (roomSnapshots ?d) = [] then 1
            else Max (snap_version ` set (room_snapshots ''R1'' (roomSnapshots ?d))) + 1)"
    by (rule conjunct1)
  then have v: "snap_version ?new = 11" unfolding rs by simp
  from t have "length (room_snapshots ''R1'' (roomSnapshots ?d')) =
           min 10 (Suc (length (room_snapshots ''R1'' (roomSnapshots ?d))))"
    by blast
  then have l: "length (room_snapshots ''R1'' (roomSnapshots ?d')) = 10" unfolding rs by simp
  show ?thesis using h1 h2 v l by simp
qed

section \<open>Connecting\<close>

lemma cm_handleConnect [simp]:
  "cm (handleConnect E c w r u t st) = addConnection c w r u t (cm st)"
  by (simp add: handleConnect_def Let_def)

lemma ym_handleConnect:
  "ym (handleConnect E c w r u t st) =
     snd (getOrCreateDocument E r (db (handleConnect E c w r u t st)) (ym st))"
  by (simp add: handleConnect_def Let_def)

lemma roomParticipants_handleConnect:
  "roomParticipants (db (handleConnect E c w r u t st)) =
     roomParticipants (db st) @
       [\<lparr>prow_roomId = r, prow_userId = user_id u, prow_clientId = c,
         prow_userName = user_name u, prow_userColor = user_color u, prow_role = Editor,
         prow_joinedAt = t, prow_leftAt = None\<rparr>]"
  by (simp add: handleConnect_def Let_def roomParticipant_create_def room_update_lastActive_def
      room_create_def room_findUnique_def split: option.splits)

lemma roomSnapshots_handleConnect [simp]:
  "roomSnapshots (db (handleConnect E c w r u t st)) = roomSnapshots (db st)"
  by (simp add: handleConnect_def Let_def roomParticipant_create_def room_update_lastActive_def
      room_create_def room_findUnique_def split: option.splits)

lemma fst_getOrCreateDocument:
  "fst (getOrCreateDocument E r d y) =
     (case documents y r of
        Some doc \<Rightarrow> doc
      | None \<Rightarrow> (case roomSnapshot_findFirst_desc r (roomSnapshots d) of
                   Some s \<Rightarrow> Y_applyUpdate E (Y_Doc E) (snap_snapshotData s)
                 | None \<Rightarrow> Y_Doc E))"
  by (simp add: getOrCreateDocument_def Let_def split: option.splits)

lemma documents_getOrCreateDocument:
  "documents (snd (getOrCreateDocument E r d y)) = (documents y)(r \<mapsto> fst (getOrCreateDocument E r d y))"
  by (auto simp: getOrCreateDocument_def Let_def setupSnapshotSaving_def split: option.splits)

lemma saveTimers_getOrCreateDocument:
  "saveTimers (snd (getOrCreateDocument E r d y)) =
     (case documents y r of
        Some doc \<Rightarrow> saveTimers y
      | None \<Rightarrow> (saveTimers y)(r \<mapsto> \<lparr>timer_roomId = r, timer_ms = saveIntervalMs y\<rparr>))"
  by (simp add: getOrCreateDocument_def Let_def setupSnapshotSaving_def split: option.splits)

lemma rooms_handleConnect:
  "rooms (db (handleConnect E c w r u t st)) =
     (rooms (db st))(r \<mapsto>
        (case rooms (db st) r of
           None \<Rightarrow> \<lparr>room_name = ''Room '' @ r, room_creatorId = user_id u, room_createdAt = t,
                     room_lastActive = t\<rparr>
         | Some row \<Rightarrow> row\<lparr>room_lastActive := t\<rparr>))"
  by (simp add: handleConnect_def Let_def roomParticipant_create_def room_update_lastActive_def
      room_create_def room_findUnique_def split: option.splits)

lemma documents_handleConnect:
  "documents (ym (handleConnect E c w r u t st)) =
     (documents (ym st))(r \<mapsto> fst (getOrCreateDocument E r (db (handleConnect E c w r u t st)) (ym st)))"
  by (simp add: ym_handleConnect documents_getOrCreateDocument)

lemma socks_handleConnect:
  "socks (handleConnect E c w r u t st) =
     broadcastToRoom r (JoinBroadcast u c r) (Some c) (addConnection c w r u t (cm st))
       (sendToClient c
          (SyncResponse
             (base64_encode E (Y_encodeStateAsUpdate E
                (fst (getOrCreateDocument E r (db (handleConnect E c w r u t st)) (ym st)))))
             (getRoomParticipants r (addConnection c w r u t (cm st))))
          (addConnection c w r u t (cm st)) (socks st))"
proof -
  have "getStateAsUpdate E r (snd (getOrCreateDocument E r d y)) =
          Some (Y_encodeStateAsUpdate E (fst (getOrCreateDocument E r d y)))" for d y
    by (simp add: getStateAsUpdate_def documents_getOrCreateDocument)
  then show ?thesis
    by (simp add: handleConnect_def Let_def)
qed

lemma receivers_member:
  assumes sd: "sockets_distinct m" and di: "distinct cs" and mem: "c \<in> set cs"
    and conn: "connections m c = Some k"
  shows "filter (receives None (connections m) ss (conn_ws k)) cs =
           (if readyState (ss (conn_ws k)) = OPEN then [c] else [])"
proof -
  have "receives None (connections m) ss (conn_ws k) c' \<longleftrightarrow>
          c' = c \<and> readyState (ss (conn_ws k)) = OPEN" for c'
  proof
    assume r: "receives None (connections m) ss (conn_ws k) c'"
    then obtain k' where k': "connections m c' = Some k'" "conn_ws k' = conn_ws k"
      by (auto simp: receives_def split: option.splits)
    with sd conn have "c' = c" unfolding sockets_distinct_def by blast
    with r show "c' = c \<and> readyState (ss (conn_ws k)) = OPEN" by (simp add: receives_def)
  next
    assume "c' = c \<and> readyState (ss (conn_ws k)) = OPEN"
    with conn show "receives None (connections m) ss (conn_ws k) c'" by (simp add: receives_def)
  qed
  then have "filter (receives None (connections m) ss (conn_ws k)) cs =
             filter (\<lambda>c'. c' = c \<and> readyState (ss (conn_ws k)) = OPEN) cs"
    by (intro filter_cong) simp_all
  also have "\<dots> = (if readyState (ss (conn_ws k)) = OPEN then filter (\<lambda>c'. c' = c) cs else [])"
    by simp
  also have "\<dots> = (if readyState (ss (conn_ws k)) = OPEN then [c] else [])"
    using di mem by (simp add: filter_eq_distinct)
  finally show ?thesis .
qed

lemma receivers_none:
  assumes "\<And>c k. c \<in> set cs \<Longrightarrow> Some c \<noteq> ex \<Longrightarrow> conns c = Some k \<Longrightarrow> conn_ws k \<noteq> w"
  shows "filter (receives ex conns ss w) cs = []"
  using assms by (auto simp: filter_empty_conv receives_def split: option.splits)

lemma receives_exclude:
  "receives (Some x) conns ss w c \<longleftrightarrow> c \<noteq> x \<and> receives None conns ss w c"
  by (auto simp: receives_def)

lemma filter_receives_exclude:
  "filter (receives (Some x) conns ss w) cs = filter (\<lambda>c. c \<noteq> x) (filter (receives None conns ss w) cs)"
  by (induction cs) (auto simp: receives_exclude)

lemma participants_loop_append:
  "participants_loop (xs @ ys) conns = participants_loop xs conns @ participants_loop ys conns"
  by (induction xs) (simp_all split: option.splits)

lemma participants_loop_cong:
  "(\<And>x. x \<in> set xs \<Longrightarrow> conns' x = conns x) \<Longrightarrow>
   participants_loop xs conns' = participants_loop xs conns"
  by (induction xs) (simp_all split: option.splits)

lemma readyState_sendToClient [simp]:
  "readyState (sendToClient c msg m ss w) = readyState (ss w)"
  by (simp add: sendToClient_at)

lemma readyState_broadcastToRoom [simp]:
  "readyState (broadcastToRoom r msg ex m ss w) = readyState (ss w)"
  by (simp add: broadcastToRoom_at)

lemma readyState_handleConnect [simp]:
  "readyState (socks (handleConnect E c w r u t st) w') = readyState (socks st w')"
  by (simp add: socks_handleConnect)

lemma getRoomParticipants_bucket:
  "getRoomParticipants r m = participants_loop (bucket m r) (connections m)"
  by (simp add: getRoomParticipants_def bucket_def split: option.splits)

lemma socks_handleConnect_at:
  "socks (handleConnect E c w r u t st) w' =
     push (replicate
             (length (filter (receives (Some c) (connections (addConnection c w r u t (cm st)))
                                (socks st) w')
                        (bucket (addConnection c w r u t (cm st)) r)))
             (JoinBroadcast u c r))
       (if w' = w \<and> readyState (socks st w) = OPEN
        then push [SyncResponse
                (base64_encode E (Y_encodeStateAsUpdate E
                   (fst (getOrCreateDocument E r (db (handleConnect E c w r u t st)) (ym st)))))
                (getRoomParticipants r (addConnection c w r u t (cm st)))] (socks st w')
        else socks st w')"
proof -
  let ?m1 = "addConnection c w r u t (cm st)"
  let ?sync = "SyncResponse
                (base64_encode E (Y_encodeStateAsUpdate E
                   (fst (getOrCreateDocument E r (db (handleConnect E c w r u t st)) (ym st)))))
                (getRoomParticipants r ?m1)"
  let ?s1 = "sendToClient c ?sync ?m1 (socks st)"
  have s1: "?s1 w' = (if w' = w \<and> readyState (socks st w) = OPEN then push [?sync] (socks st w')
                      else socks st w')"
    by (auto simp: sendToClient_at receives_def)
  have "receives (Some c) (connections ?m1) ?s1 w' = receives (Some c) (connections ?m1) (socks st) w'"
    by (rule ext) (simp add: receives_def)
  then show ?thesis
    unfolding socks_handleConnect broadcastToRoom_at s1 by simp
qed

lemma participants_loop_clientIds:
  "map part_clientId (participants_loop cs conns) = filter (\<lambda>c. conns c \<noteq> None) cs"
  by (induction cs) (auto split: option.splits)

lemma participants_loop_entries:
  "p \<in> set (participants_loop cs conns) \<Longrightarrow>
   \<exists>k. conns (part_clientId p) = Some k \<and> p = participant_of (part_clientId p) k"
  by (induction cs) (auto simp: participant_of_def split: option.splits)

lemma participants_loop_mem:
  "c \<in> set cs \<Longrightarrow> conns c = Some k \<Longrightarrow> participant_of c k \<in> set (participants_loop cs conns)"
  by (induction cs) (auto simp: participant_of_def split: option.splits)

lemma join_receivers_new:
  assumes fresh: "connections m c = None"
    and rs: "readyState (ss' w') = readyState (ss w')"
  shows "filter (receives (Some c) (connections (addConnection c w r u t m)) ss' w')
           (bucket (addConnection c w r u t m) r) =
         filter (receives None (connections m) ss w') (bucket m r)"
proof -
  have same: "receives (Some c) (connections (addConnection c w r u t m)) ss' w' x =
              receives None (connections m) ss w' x" for x
    using rs fresh by (cases "x = c") (simp_all add: receives_def)
  have "filter (receives (Some c) (connections (addConnection c w r u t m)) ss' w') (bucket m r) =
        filter (receives None (connections m) ss w') (bucket m r)"
    by (rule filter_cong[OF refl]) (rule same)
  moreover have "\<not> receives (Some c) (connections (addConnection c w r u t m)) ss' w' c"
    by (simp add: receives_def)
  ultimately show ?thesis
    by (simp add: bucket_add set_add_def)
qed

lemma socks_handleConnect_new:
  assumes fresh: "connections (cm st) c = None"
    and opn: "readyState (socks st w) = OPEN"
  shows "socks (handleConnect E c w r u t st) w' =
     push (replicate (length (filter (receives None (connections (cm st)) (socks st) w')
                                (bucket (cm st) r))) (JoinBroadcast u c r))
       (if w' = w
        then push [SyncResponse
                (base64_encode E (Y_encodeStateAsUpdate E
                   (fst (getOrCreateDocument E r (db (handleConnect E c w r u t st)) (ym st)))))
                (getRoomParticipants r (addConnection c w r u t (cm st)))] (socks st w)
        else socks st w')"
proof -
  have "filter (receives (Some c) (connections (addConnection c w r u t (cm st))) (socks st) w')
          (bucket (addConnection c w r u t (cm st)) r) =
        filter (receives None (connections (cm st)) (socks st) w') (bucket (cm st) r)"
    using fresh by (rule join_receivers_new) simp
  then show ?thesis
    unfolding socks_handleConnect_at using opn by auto
qed

lemma getRoomParticipants_add_new:
  assumes nin: "c \<notin> set (bucket m r)"
  shows "getRoomParticipants r (addConnection c w r u t m) =
           getRoomParticipants r m @
             [\<lparr>part_userId = user_id u, part_clientId = c, part_user = u, part_role = Editor,
               part_joinedAt = t\<rparr>]"
proof -
  have "participants_loop (bucket m r) (connections (addConnection c w r u t m)) =
        participants_loop (bucket m r) (connections m)"
    using nin by (intro participants_loop_cong) auto
  then show ?thesis
    using nin
    by (simp add: getRoomParticipants_bucket bucket_add set_add_def participants_loop_append)
qed

text \<open>What a server step does to the registry, and the conditions on the registry that
  every step keeps.\<close>

lemma cm_handleUpdate: "handleUpdate E c delta st = Inr st' \<Longrightarrow> cm st' = cm st"
  by (auto simp: handleUpdate_def Let_def split: option.splits if_splits sum.splits prod.splits)

lemma cm_handlePresence: "cm (handlePresence c cur sel vp st) = cm st"
  by (simp add: handlePresence_def split: option.splits)

lemma cm_handleChat: "cm (handleChat c n t ts st) = cm st"
  by (simp add: handleChat_def split: option.splits)

lemma cm_handleDisconnect:
  "cm (handleDisconnect E c now st) = snd (removeConnection c (cm st))"
  by (cases "connections (cm st) c")
     (simp_all add: handleDisconnect_def removeConnection_def Let_def)

lemma cm_handleMessage:
  "cm (handleMessage E c w d now st) = cm st \<or>
   (\<exists>r u. cm (handleMessage E c w d now st) = addConnection c w r u now (cm st)) \<or>
   cm (handleMessage E c w d now st) = snd (removeConnection c (cm st))"
proof (cases "JSON_parse E d")
  case None
  then show ?thesis by (simp add: handleMessage_def)
next
  case (Some message)
  show ?thesis
  proof (cases message)
    case (UpdateMessage delta)
    show ?thesis
    proof (cases "handleUpdate E c delta st")
      case (Inl e)
      then show ?thesis using Some UpdateMessage by (simp add: handleMessage_def)
    next
      case (Inr st')
      then have "cm st' = cm st" by (rule cm_handleUpdate)
      then show ?thesis using Some UpdateMessage Inr by (simp add: handleMessage_def)
    qed
  qed (use Some in \<open>auto simp: handleMessage_def cm_handleDisconnect cm_handlePresence cm_handleChat\<close>)
qed

lemma cm_interval_fire: "cm (interval_fire E r st) = cm st"
  by (simp add: interval_fire_def split: option.splits)

lemma cm_server_step:
  "cm (server_step E ev st) = cm st \<or>
   (\<exists>c w d r u t. ev = Message c w d t \<and> cm (server_step E ev st) = addConnection c w r u t (cm st)) \<or>
   (\<exists>c. cm (server_step E ev st) = snd (removeConnection c (cm st)))"
proof (cases ev)
  case (Message c w d t)
  then show ?thesis using cm_handleMessage[of E c w d t st] by auto
next
  case (Close c t)
  then show ?thesis by (auto simp: cm_handleDisconnect)
next
  case (SaveTimer r)
  then show ?thesis by (simp add: cm_interval_fire)
qed

lemma buckets_distinct_new: "buckets_distinct new_ConnectionManager"
  by (simp add: buckets_distinct_def new_ConnectionManager_def)

lemma buckets_distinct_server_step:
  "buckets_distinct (cm st) \<Longrightarrow> buckets_distinct (cm (server_step E ev st))"
  using cm_server_step[of E ev st] buckets_distinct_add buckets_distinct_remove by metis

lemma buckets_distinct_server_run:
  "buckets_distinct (cm st) \<Longrightarrow> buckets_distinct (cm (server_run E evs st))"
  by (induction evs arbitrary: st) (simp_all add: buckets_distinct_server_step)

lemma sockets_follow_add:
  "sockets_follow sock m \<Longrightarrow> sockets_follow sock (addConnection c (sock c) r u t m)"
  by (simp add: sockets_follow_def)

lemma sockets_follow_remove:
  "sockets_follow sock m \<Longrightarrow> sockets_follow sock (snd (removeConnection c m))"
  by (cases "connections m c") (auto simp: sockets_follow_def removeConnection_def Let_def)

lemma sockets_follow_server_step:
  assumes "sockets_follow sock (cm st)" and "event_on sock ev"
  shows "sockets_follow sock (cm (server_step E ev st))"
proof -
  from cm_server_step[of E ev st] consider
      "cm (server_step E ev st) = cm st"
    | c w d r u t where "ev = Message c w d t"
        "cm (server_step E ev st) = addConnection c w r u t (cm st)"
    | c where "cm (server_step E ev st) = snd (removeConnection c (cm st))"
    by blast
  then show ?thesis
  proof cases
    case 1
    then show ?thesis using assms by simp
  next
    case 2
    then have "w = sock c" using assms(2) by simp
    then show ?thesis using 2 assms(1) by (simp add: sockets_follow_add)
  next
    case 3
    then show ?thesis using assms(1) by (simp add: sockets_follow_remove)
  qed
qed

lemma sockets_follow_server_run:
  "sockets_follow sock (cm st) \<Longrightarrow> list_all (event_on sock) evs \<Longrightarrow>
   sockets_follow sock (cm (server_run E evs st))"
  by (induction evs arbitrary: st) (simp_all add: sockets_follow_server_step)

lemma sockets_follow_distinct:
  "inj sock \<Longrightarrow> sockets_follow sock m \<Longrightarrow> sockets_distinct m"
  unfolding sockets_follow_def sockets_distinct_def inj_def by metis

lemma sockets_follow_free:
  "inj sock \<Longrightarrow> sockets_follow sock m \<Longrightarrow> connections m c = None \<Longrightarrow> socket_free m (sock c)"
  unfolding sockets_follow_def socket_free_def inj_def by (metis option.distinct(1))

text \<open>In every state that the server reaches from its start, when each client id comes
  with a socket of its own, the conditions of the handshake on the registry hold.\<close>

lemma handshake_conditions_reached:
  assumes "inj sock" and "list_all (event_on sock) evs"
    and "st = server_run E evs createWebSocketServer"
    and "connections (cm st) clientId = None"
  shows "buckets_distinct (cm st) \<and> sockets_distinct (cm st) \<and> socket_free (cm st) (sock clientId)"
proof -
  have f: "sockets_follow sock (cm st)"
    unfolding assms(3) using assms(2)
    by (intro sockets_follow_server_run)
       (simp_all add: sockets_follow_def createWebSocketServer_def new_ConnectionManager_def)
  have b: "buckets_distinct (cm st)"
    unfolding assms(3)
    by (intro buckets_distinct_server_run) (simp add: createWebSocketServer_def buckets_distinct_new)
  show ?thesis using b f assms(1,4) sockets_follow_distinct sockets_follow_free by blast
qed

lemma connections_st_A:
  "connections (cm st_A) =
     [''cA'' \<mapsto> \<lparr>conn_ws = 1, conn_roomId = ''R1'', conn_user = user_A, conn_joinedAt = 100\<rparr>]"
  by (simp add: st_A_def createWebSocketServer_def new_ConnectionManager_def)

lemma sockets_distinct_st_A: "sockets_distinct (cm st_A)"
  by (auto simp: sockets_distinct_def connections_st_A split: if_splits)

lemma readyState_st_A [simp]: "readyState (socks st_A w) = OPEN"
  by (simp add: st_A_def createWebSocketServer_def new_sockets_def)

lemma roomClients_st_A: "roomClients (cm st_A) ''R1'' = Some [''cA'']"
  by (simp add: st_A_def createWebSocketServer_def new_ConnectionManager_def bucket_def set_add_def)

lemma connections_st_A2:
  "connections (cm st_A2) =
     [''cA'' \<mapsto> \<lparr>conn_ws = 1, conn_roomId = ''R2'', conn_user = user_A, conn_joinedAt = 101\<rparr>]"
  by (simp add: st_A2_def connections_st_A)

lemma bucket_st_A2: "bucket (cm st_A2) ''R1'' = [''cA'']"
  by (simp add: st_A2_def bucket_add bucket_def roomClients_st_A)

lemma readyState_st_A2 [simp]: "readyState (socks st_A2 w) = OPEN"
  by (simp add: st_A2_def)

lemma buckets_distinct_st_A2: "buckets_distinct (cm st_A2)"
  unfolding st_A2_def st_A_def cm_handleConnect
  by (intro buckets_distinct_add) (simp add: createWebSocketServer_def buckets_distinct_new)

lemma sockets_distinct_st_A2: "sockets_distinct (cm st_A2)"
  by (auto simp: sockets_distinct_def connections_st_A2 split: if_splits)

text \<open>The two indexes disagree in \<open>st_A2\<close>: client cA is in the bucket of R1 and its
  connection is for R2.\<close>

lemma indexes_disagree_st_A2: "\<not> indexes_agree (cm st_A2)"
proof
  assume "indexes_agree (cm st_A2)"
  then have "(\<exists>roomSet. roomClients (cm st_A2) ''R1'' = Some roomSet \<and> ''cA'' \<in> set roomSet) \<longleftrightarrow>
        (\<exists>connection. connections (cm st_A2) ''cA'' = Some connection \<and>
            conn_roomId connection = ''R1'')"
    unfolding indexes_agree_def by blast
  moreover have "roomClients (cm st_A2) ''R1'' = Some [''cA'']"
    by (simp add: st_A2_def roomClients_st_A)
  ultimately show False by (simp add: connections_st_A2)
qed



section \<open>Updates\<close>

lemma handleUpdate_applied:
  assumes "connections (cm st) c = Some k" and "conn_roomId k \<noteq> []"
    and "documents (ym st) (conn_roomId k) = Some d"
    and "\<not> Y_throws E d (base64_decode E delta)"
  shows "handleUpdate E c delta st =
     Inr (st\<lparr>ym := (ym st)\<lparr>documents :=
                   (documents (ym st))(conn_roomId k \<mapsto> Y_applyUpdate E d (base64_decode E delta))\<rparr>,
             socks := broadcastToRoom (conn_roomId k) (UpdateBroadcast delta c) (Some c) (cm st)
                        (socks st)\<rparr>)"
  using assms by (simp add: handleUpdate_def getRoomId_def falsy_def Let_def applyUpdate_def)

lemma handleUpdate_thrown:
  assumes "connections (cm st) c = Some k" and "conn_roomId k \<noteq> []"
    and "documents (ym st) (conn_roomId k) = Some d"
    and "Y_throws E d (base64_decode E delta)"
  shows "handleUpdate E c delta st = Inl YjsError"
  using assms by (simp add: handleUpdate_def getRoomId_def falsy_def Let_def applyUpdate_def)

lemma handleUpdate_empty_room:
  assumes "connections (cm st) c = Some k" and "conn_roomId k = []"
  shows "handleUpdate E c delta st = Inr st"
  using assms by (simp add: handleUpdate_def getRoomId_def falsy_def)

text \<open>What \<open>handleUpdate\<close> does for a client registered in a room whose id is not the empty
  string, when the buckets list no client twice and no two clients share a socket. If
  \<^verbatim>\<open>Y.applyUpdate\<close> returns on the decoded bytes, they are applied to the document of the
  room, every other client of the room's bucket whose socket is open is sent one update
  frame with the same \<open>delta\<close> and the sender's client id, and the sender's socket and the
  sockets of no client of the bucket are sent nothing. If \<^verbatim>\<open>Y.applyUpdate\<close> throws on them,
  the handler throws, and \<open>handleMessage\<close> changes nothing but the sender's socket, which is
  sent an error frame when it is open.\<close>

lemma update_fanout:
  assumes reg: "connections (cm st) B = Some kB" and room: "conn_roomId kB = R"
    and nonempty: "R \<noteq> []"
    and bd: "buckets_distinct (cm st)" and sd: "sockets_distinct (cm st)"
    and doc: "documents (ym st) R = Some d"
    and acc: "\<not> Y_throws E d (base64_decode E delta)"
  shows "\<exists>st'. handleUpdate E B delta st = Inr st' \<and>
         documents (ym st') = (documents (ym st))(R \<mapsto> Y_applyUpdate E d (base64_decode E delta)) \<and>
         saveTimers (ym st') = saveTimers (ym st) \<and> cm st' = cm st \<and> db st' = db st \<and>
         (\<forall>c \<in> set (bucket (cm st) R). \<forall>k. c \<noteq> B \<and> connections (cm st) c = Some k \<longrightarrow>
            socks st' (conn_ws k) =
              (if readyState (socks st (conn_ws k)) = OPEN
               then push [UpdateBroadcast delta B] (socks st (conn_ws k))
               else socks st (conn_ws k))) \<and>
         socks st' (conn_ws kB) = socks st (conn_ws kB) \<and>
         (\<forall>w'. (\<forall>c \<in> set (bucket (cm st) R). \<forall>k. connections (cm st) c = Some k \<longrightarrow> conn_ws k \<noteq> w')
               \<longrightarrow> socks st' w' = socks st w')"
proof -
  let ?st' = "st\<lparr>ym := (ym st)\<lparr>documents :=
                   (documents (ym st))(R \<mapsto> Y_applyUpdate E d (base64_decode E delta))\<rparr>,
             socks := broadcastToRoom R (UpdateBroadcast delta B) (Some B) (cm st) (socks st)\<rparr>"
  have di: "distinct (bucket (cm st) R)"
    using bd by (auto simp: buckets_distinct_def bucket_def split: option.splits)
  have eq: "handleUpdate E B delta st = Inr ?st'"
    using handleUpdate_applied[OF reg, of d E delta] nonempty room doc acc by simp
  have at: "socks ?st' w' =
      push (replicate (length (filter (\<lambda>c. c \<noteq> B)
              (filter (receives None (connections (cm st)) (socks st) w') (bucket (cm st) R))))
            (UpdateBroadcast delta B)) (socks st w')" for w'
    by (simp add: broadcastToRoom_at filter_receives_exclude)
  have p4: "\<forall>c \<in> set (bucket (cm st) R). \<forall>k. c \<noteq> B \<and> connections (cm st) c = Some k \<longrightarrow>
            socks ?st' (conn_ws k) =
              (if readyState (socks st (conn_ws k)) = OPEN
               then push [UpdateBroadcast delta B] (socks st (conn_ws k))
               else socks st (conn_ws k))"
  proof (intro ballI allI impI)
    fix c k
    assume mem: "c \<in> set (bucket (cm st) R)"
      and a: "c \<noteq> B \<and> connections (cm st) c = Some k"
    have "filter (receives None (connections (cm st)) (socks st) (conn_ws k)) (bucket (cm st) R) =
           (if readyState (socks st (conn_ws k)) = OPEN then [c] else [])"
      using sd di mem a by (intro receivers_member) simp_all
    then show "socks ?st' (conn_ws k) =
              (if readyState (socks st (conn_ws k)) = OPEN
               then push [UpdateBroadcast delta B] (socks st (conn_ws k))
               else socks st (conn_ws k))"
      unfolding at[of "conn_ws k"] using a by simp
  qed
  have p5: "socks ?st' (conn_ws kB) = socks st (conn_ws kB)"
  proof -
    have "filter (\<lambda>c. c \<noteq> B)
            (filter (receives None (connections (cm st)) (socks st) (conn_ws kB)) (bucket (cm st) R)) = []"
    proof -
      have "c = B" if "receives None (connections (cm st)) (socks st) (conn_ws kB) c" for c
      proof -
        from that obtain k where "connections (cm st) c = Some k" "conn_ws k = conn_ws kB"
          by (auto simp: receives_def split: option.splits)
        with sd reg show ?thesis unfolding sockets_distinct_def by blast
      qed
      then show ?thesis by (auto simp: filter_empty_conv)
    qed
    then show ?thesis unfolding at[of "conn_ws kB"] by simp
  qed
  have p6: "\<forall>w'. (\<forall>c \<in> set (bucket (cm st) R). \<forall>k. connections (cm st) c = Some k \<longrightarrow> conn_ws k \<noteq> w')
               \<longrightarrow> socks ?st' w' = socks st w'"
  proof (intro allI impI)
    fix w'
    assume a: "\<forall>c \<in> set (bucket (cm st) R). \<forall>k. connections (cm st) c = Some k \<longrightarrow> conn_ws k \<noteq> w'"
    have "filter (receives None (connections (cm st)) (socks st) w') (bucket (cm st) R) = []"
      using a by (intro receivers_none) blast
    then show "socks ?st' w' = socks st w'" unfolding at[of w'] by simp
  qed
  have p1: "documents (ym ?st') = (documents (ym st))(R \<mapsto> Y_applyUpdate E d (base64_decode E delta))"
    "saveTimers (ym ?st') = saveTimers (ym st)" "cm ?st' = cm st" "db ?st' = db st"
    by simp_all
  from eq p1 p4 p5 p6 show ?thesis by (intro exI[of _ ?st'] conjI)
qed

lemma update_rejected:
  assumes reg: "connections (cm st) B = Some kB" and nonempty: "conn_roomId kB \<noteq> []"
    and doc: "documents (ym st) (conn_roomId kB) = Some d"
    and thr: "Y_throws E d (base64_decode E delta)"
    and parse: "JSON_parse E data = Some (UpdateMessage delta)"
  shows "handleUpdate E B delta st = Inl YjsError \<and>
         handleMessage E B w data now st =
           st\<lparr>socks := sendToClient B (ErrorMessage ''INVALID_MESSAGE'' ''Failed to process message'')
                           (cm st) (socks st)\<rparr>"
  using handleUpdate_thrown[OF reg nonempty doc thr] parse by (simp add: handleMessage_def)

lemma connections_st_E:
  "connections (cm st_E) =
     [''cA'' \<mapsto> \<lparr>conn_ws = 1, conn_roomId = [], conn_user = user_A, conn_joinedAt = 100\<rparr>,
      ''cB'' \<mapsto> \<lparr>conn_ws = 2, conn_roomId = [], conn_user = user_B, conn_joinedAt = 101\<rparr>]"
  by (simp add: st_E_def createWebSocketServer_def new_ConnectionManager_def)

lemma roomClients_st_E: "roomClients (cm st_E) [] = Some [''cA'', ''cB'']"
  by (simp add: st_E_def createWebSocketServer_def new_ConnectionManager_def bucket_def set_add_def)

lemma documents_st_E: "documents (ym st_E) [] = Some []"
  by (simp add: st_E_def documents_handleConnect fst_getOrCreateDocument demo_externals_def
      createWebSocketServer_def new_YjsDocumentManager_def new_database_def
      roomSnapshot_findFirst_desc_def roomSnapshot_findMany_desc_def)

text \<open>Claim C1 at a client registered in the room with the empty id. Clients cA and cB
  have joined that room by connect frames, both sockets are open and the room has its
  document. An update frame of cB changes nothing, whether its delta is one that
  \<^verbatim>\<open>Y.applyUpdate\<close> takes (AAA=, the empty update) or one that it throws on (AAEC): the
  document is not updated, cA is sent nothing and cB is sent no error frame, because
  \<^verbatim>\<open>if (!roomId) return\<close> in \<open>handleUpdate\<close> takes the empty string for a missing room and
  returns before the delta is decoded.\<close>

theorem update_in_unnamed_room_dropped:
  "getRoomId ''cA'' (cm st_E) = Some [] \<and> getRoomId ''cB'' (cm st_E) = Some [] \<and>
   roomClients (cm st_E) [] = Some [''cA'', ''cB''] \<and>
   readyState (socks st_E 1) = OPEN \<and> readyState (socks st_E 2) = OPEN \<and>
   documents (ym st_E) [] = Some [] \<and>
   JSON_parse demo_externals ''update AAEC'' = Some (UpdateMessage ''AAEC'') \<and>
   handleMessage demo_externals ''cB'' 2 ''update AAEC'' 102 st_E = st_E \<and>
   JSON_parse demo_externals ''update AAA='' = Some (UpdateMessage ''AAA='') \<and>
   \<not> Y_throws demo_externals [] (base64_decode demo_externals ''AAA='') \<and>
   handleMessage demo_externals ''cB'' 2 ''update AAA='' 102 st_E = st_E"
proof -
  have p': "JSON_parse demo_externals ''update AAA='' = Some (UpdateMessage ''AAA='')"
    by (simp add: demo_externals_def demo_parse_def)
  have a: "\<not> Y_throws demo_externals [] (base64_decode demo_externals ''AAA='')"
    by (simp add: demo_externals_def demo_decode_def)
  have p: "JSON_parse demo_externals ''update AAEC'' = Some (UpdateMessage ''AAEC'')"
    by (simp add: demo_externals_def demo_parse_def)
  have k: "connections (cm st_E) ''cB'' =
      Some \<lparr>conn_ws = 2, conn_roomId = [], conn_user = user_B, conn_joinedAt = 101\<rparr>"
    by (simp add: connections_st_E)
  have "handleUpdate demo_externals ''cB'' ''AAEC'' st_E = Inr st_E"
    using k by (rule handleUpdate_empty_room) simp
  then have h: "handleMessage demo_externals ''cB'' 2 ''update AAEC'' 102 st_E = st_E"
    by (simp add: handleMessage_def p)
  have "handleUpdate demo_externals ''cB'' ''AAA='' st_E = Inr st_E"
    using k by (rule handleUpdate_empty_room) simp
  then have h': "handleMessage demo_externals ''cB'' 2 ''update AAA='' 102 st_E = st_E"
    by (simp add: handleMessage_def p')
  have o: "readyState (socks st_E w) = OPEN" for w
    by (simp add: st_E_def createWebSocketServer_def new_sockets_def)
  have g: "getRoomId ''cA'' (cm st_E) = Some []" "getRoomId ''cB'' (cm st_E) = Some []"
    by (simp_all add: getRoomId_def connections_st_E)
  show ?thesis using p h p' a h' o g roomClients_st_E documents_st_E by simp
qed

section \<open>Leaving\<close>

lemma close_row_twice: "close_row c t2 (close_row c t1 r) = close_row c t1 r"
  by (simp add: close_row_def)

lemma map_close_twice: "map (close_row c t2) (map (close_row c t1) xs) = map (close_row c t1) xs"
  by (induction xs) (simp_all add: close_row_twice)

lemma updateMany_leftAt_twice:
  "roomParticipant_updateMany_leftAt c t2 (roomParticipant_updateMany_leftAt c t1 d)
     = roomParticipant_updateMany_leftAt c t1 d"
  unfolding roomParticipant_updateMany_leftAt_def
  by (simp add: map_close_twice del: map_map)

lemma close_row_clientId [simp]: "prow_clientId (close_row c t x) = prow_clientId x"
  by (simp add: close_row_def)

lemma close_row_closed: "prow_clientId x = c \<Longrightarrow> prow_leftAt (close_row c t x) \<noteq> None"
  by (simp add: close_row_def)

lemma updateMany_leftAt_closed:
  assumes a: "row \<in> set (roomParticipants (roomParticipant_updateMany_leftAt c t d))"
    and b: "prow_clientId row = c"
  shows "prow_leftAt row \<noteq> None"
proof -
  from a obtain x where x: "row = close_row c t x"
    unfolding roomParticipant_updateMany_leftAt_def by (simp add: image_iff) blast
  with b have "prow_clientId x = c" by simp
  then show ?thesis unfolding x by (rule close_row_closed)
qed

lemma handleDisconnect_unregistered:
  "connections (cm st) c = None \<Longrightarrow> handleDisconnect E c now st = st"
  by (simp add: handleDisconnect_def)

lemma handleDisconnect_registered:
  assumes "connections (cm st) c = Some k"
  shows "handleDisconnect E c now st =
     st\<lparr>cm := snd (removeConnection c (cm st)),
        db := (if isRoomEmpty (conn_roomId k) (snd (removeConnection c (cm st)))
               then saveSnapshot E (conn_roomId k) None (ym st)
                      (roomParticipant_updateMany_leftAt c now (db st))
               else roomParticipant_updateMany_leftAt c now (db st)),
        socks := broadcastToRoom (conn_roomId k) (LeaveBroadcast c (user_id (conn_user k))) None
                   (snd (removeConnection c (cm st))) (socks st)\<rparr>"
proof -
  obtain m1 where r: "removeConnection c (cm st) = (Some (conn_roomId k, conn_user k), m1)"
    using assms by (simp add: removeConnection_def Let_def)
  show ?thesis
    unfolding handleDisconnect_def r by (simp add: Let_def)
qed

lemma handleDisconnect_deregisters:
  "connections (cm (handleDisconnect E c now st)) c = None"
proof (cases "connections (cm st) c")
  case None
  then show ?thesis by (simp add: handleDisconnect_def)
next
  case (Some k)
  show ?thesis
    unfolding handleDisconnect_registered[OF Some] by simp
qed

text \<open>Claim C9. Detaching and recording a leave are idempotent. After a
  \<open>removeConnection\<close> that found the client, a second one returns nothing and leaves the
  registry as it is. Repeating the update that records the leave changes no participant
  row: the update closes only rows of the client whose \<open>leftAt\<close> is null, and after the
  first update no row of the client has a null \<open>leftAt\<close>. The disconnect handler as a whole
  is idempotent as well.\<close>

theorem detach_record_leave_idempotent:
  "(removeConnection clientId m = (Some r, m') \<longrightarrow> removeConnection clientId m' = (None, m')) \<and>
   roomParticipant_updateMany_leftAt clientId t2 (roomParticipant_updateMany_leftAt clientId t1 d)
     = roomParticipant_updateMany_leftAt clientId t1 d \<and>
   (\<forall>row \<in> set (roomParticipants (roomParticipant_updateMany_leftAt clientId t1 d)).
      prow_clientId row = clientId \<longrightarrow> prow_leftAt row \<noteq> None) \<and>
   (\<forall>row. prow_leftAt row \<noteq> None \<longrightarrow> close_row clientId t1 row = row) \<and>
   handleDisconnect E clientId t2 (handleDisconnect E clientId t1 st)
     = handleDisconnect E clientId t1 st"
proof (intro conjI impI ballI allI)
  assume a: "removeConnection clientId m = (Some r, m')"
  then have "m' = snd (removeConnection clientId m)" by simp
  then have "connections m' clientId = None" by simp
  then show "removeConnection clientId m' = (None, m')" by simp
next
  show "roomParticipant_updateMany_leftAt clientId t2 (roomParticipant_updateMany_leftAt clientId t1 d)
     = roomParticipant_updateMany_leftAt clientId t1 d"
    by (rule updateMany_leftAt_twice)
next
  fix row
  assume "row \<in> set (roomParticipants (roomParticipant_updateMany_leftAt clientId t1 d))"
    and "prow_clientId row = clientId"
  then show "prow_leftAt row \<noteq> None" by (rule updateMany_leftAt_closed)
next
  fix row :: participant_row
  assume "prow_leftAt row \<noteq> None"
  then show "close_row clientId t1 row = row" by (simp add: close_row_def)
next
  show "handleDisconnect E clientId t2 (handleDisconnect E clientId t1 st)
     = handleDisconnect E clientId t1 st"
    using handleDisconnect_deregisters by (rule handleDisconnect_unregistered)
qed

theorem detach_record_leave_idempotent_witness:
  "removeConnection ''c1'' (addConnection ''c1'' 0 ''R1'' user_A 0 new_ConnectionManager)
     = (Some (''R1'', user_A), new_ConnectionManager) \<and>
   removeConnection ''c1'' new_ConnectionManager = (None, new_ConnectionManager) \<and>
   open_row\<lparr>prow_leftAt := Some 7\<rparr> \<in> set (roomParticipants
      (roomParticipant_updateMany_leftAt ''c1'' 7 (new_database\<lparr>roomParticipants := [open_row]\<rparr>))) \<and>
   prow_clientId (open_row\<lparr>prow_leftAt := Some 7\<rparr>) = ''c1'' \<and>
   prow_leftAt (open_row\<lparr>prow_leftAt := Some 7\<rparr>) \<noteq> None \<and>
   close_row ''c1'' 7 (open_row\<lparr>prow_leftAt := Some 7\<rparr>) = open_row\<lparr>prow_leftAt := Some 7\<rparr>"
proof -
  have h: "removeConnection ''c1'' (addConnection ''c1'' 0 ''R1'' user_A 0 new_ConnectionManager)
     = (Some (''R1'', user_A), new_ConnectionManager)"
    by (simp add: removeConnection_def new_ConnectionManager_def bucket_def set_add_def
        set_delete_def)
  have r: "open_row\<lparr>prow_leftAt := Some 7\<rparr> \<in> set (roomParticipants
      (roomParticipant_updateMany_leftAt ''c1'' 7 (new_database\<lparr>roomParticipants := [open_row]\<rparr>)))"
    by (simp add: roomParticipant_updateMany_leftAt_def close_row_def open_row_def)
  have c: "prow_clientId (open_row\<lparr>prow_leftAt := Some 7\<rparr>) = ''c1''"
    by (simp add: open_row_def)
  show ?thesis
    using h r c
      detach_record_leave_idempotent [of "''c1''"
        "addConnection ''c1'' 0 ''R1'' user_A 0 new_ConnectionManager" "(''R1'', user_A)"
        new_ConnectionManager 7 7 "new_database\<lparr>roomParticipants := [open_row]\<rparr>"
        demo_externals createWebSocketServer]
    by auto
qed

text \<open>Claim C10. The disconnect handler, called for a client that has no registered
  connection, changes nothing: the state after it is the state before it, so no
  participant row is modified, no frame is sent to any socket, no snapshot is saved, no
  document is touched, and both indexes of the registry are as they were.\<close>

theorem disconnect_unregistered_noop:
  "connections (cm st) clientId = None \<Longrightarrow> handleDisconnect E clientId now st = st"
  by (rule handleDisconnect_unregistered)

theorem disconnect_unregistered_noop_witness:
  "connections (cm st_AB) ''cZ'' = None \<and> handleDisconnect demo_externals ''cZ'' 102 st_AB = st_AB"
proof -
  have h: "connections (cm st_AB) ''cZ'' = None"
    by (simp add: st_AB_def st_A_def createWebSocketServer_def new_ConnectionManager_def)
  show ?thesis using h disconnect_unregistered_noop [OF h] by simp
qed

section \<open>Frames that are not acted on\<close>

lemma handleUpdate_unregistered:
  "connections (cm st) c = None \<Longrightarrow> handleUpdate E c delta st = Inr st"
  by (simp add: handleUpdate_def getRoomId_def)

lemma handlePresence_unregistered:
  "connections (cm st) c = None \<Longrightarrow> handlePresence c cur sel vp st = st"
  by (simp add: handlePresence_def getRoomId_def)

lemma handleMessage_other:
  "JSON_parse E data = Some (OtherMessage t) \<Longrightarrow> handleMessage E c w data now st = st"
  by (simp add: handleMessage_def)

lemma handleMessage_parse_error:
  "JSON_parse E data = None \<Longrightarrow>
   handleMessage E c w data now st =
     st\<lparr>socks := sendToClient c (ErrorMessage ''INVALID_MESSAGE'' ''Failed to process message'')
                     (cm st) (socks st)\<rparr>"
  by (simp add: handleMessage_def)

lemma sendToClient_None: "connections m c = None \<Longrightarrow> sendToClient c msg m ss = ss"
  by (simp add: sendToClient_def)

lemma sendToClient_Some:
  "connections m c = Some k \<Longrightarrow>
   sendToClient c msg m ss =
     (if readyState (ss (conn_ws k)) = OPEN then ss(conn_ws k := push [msg] (ss (conn_ws k)))
      else ss)"
  by (simp add: sendToClient_def ws_send_push)

text \<open>Claim C7, as amended. An update or presence frame from a session that has no
  registered connection has no effect at all: the state after the handler is the state
  before it, so no document changes, nothing is broadcast, and no frame is sent to the
  sender either (the handlers return without sending an error frame).\<close>

theorem frames_before_connect_dropped:
  assumes "connections (cm st) clientId = None"
  shows "handleUpdate E clientId delta st = Inr st \<and>
         handlePresence clientId cur sel vp st = st \<and>
         (JSON_parse E data = Some (UpdateMessage delta) \<or>
          JSON_parse E data = Some (PresenceMessage cid cur sel vp)
            \<longrightarrow> handleMessage E clientId w data now st = st)"
  using assms
  by (auto simp: handleMessage_def handleUpdate_unregistered handlePresence_unregistered)

theorem frames_before_connect_dropped_witness:
  "connections (cm st_AB) ''cZ'' = None \<and>
   JSON_parse demo_externals ''update AAEC'' = Some (UpdateMessage ''AAEC'') \<and>
   handleUpdate demo_externals ''cZ'' ''AAEC'' st_AB = Inr st_AB \<and>
   handlePresence ''cZ'' (Some (10, 20)) None None st_AB = st_AB \<and>
   handleMessage demo_externals ''cZ'' 9 ''update AAEC'' 102 st_AB = st_AB"
proof -
  have h: "connections (cm st_AB) ''cZ'' = None"
    by (simp add: st_AB_def st_A_def createWebSocketServer_def new_ConnectionManager_def)
  have p: "JSON_parse demo_externals ''update AAEC'' = Some (UpdateMessage ''AAEC'')"
    by (simp add: demo_externals_def demo_parse_def)
  show ?thesis
    using h p frames_before_connect_dropped [OF h, of demo_externals "''AAEC''" "Some (10, 20)" None
        None "''update AAEC''" "''c1''" 9 102]
    by simp
qed

text \<open>Claim C7 as stated fails: on a server that has just started, client c1 is not
  registered and its socket 1 is open; after its update frame is handled, socket 1 has
  been sent nothing, so no error frame with code NOT_CONNECTED.\<close>

theorem update_before_connect_counterexample:
  "connections (cm (createWebSocketServer :: bytes list hub)) ''c1'' = None \<and>
   JSON_parse demo_externals ''update AAEC'' = Some (UpdateMessage ''AAEC'') \<and>
   readyState (socks (createWebSocketServer :: bytes list hub) 1) = OPEN \<and>
   sent (socks (handleMessage demo_externals ''c1'' 1 ''update AAEC'' 5 createWebSocketServer) 1) = []"
  by (simp add: handleMessage_def handleUpdate_def getRoomId_def createWebSocketServer_def
      new_ConnectionManager_def new_sockets_def demo_externals_def demo_parse_def)

text \<open>Claim C8, as amended. A frame whose type is none of the known variants is ignored:
  the state does not change and nothing is sent. For a frame that fails to parse, the
  registry, the documents and the store do not change and no socket changes its
  \<open>readyState\<close>; the sender is sent exactly one error frame with code INVALID_MESSAGE when it
  is registered and its socket is open, and nothing is sent otherwise.\<close>

theorem invalid_frame_reply:
  "(JSON_parse E data = Some (OtherMessage t) \<longrightarrow> handleMessage E clientId w data now st = st) \<and>
   (JSON_parse E data = None \<longrightarrow>
      cm (handleMessage E clientId w data now st) = cm st \<and>
      ym (handleMessage E clientId w data now st) = ym st \<and>
      db (handleMessage E clientId w data now st) = db st \<and>
      (\<forall>w'. readyState (socks (handleMessage E clientId w data now st) w') = readyState (socks st w')) \<and>
      (\<forall>k. connections (cm st) clientId = Some k \<and> readyState (socks st (conn_ws k)) = OPEN \<longrightarrow>
         socks (handleMessage E clientId w data now st) =
           (socks st)(conn_ws k :=
              push [ErrorMessage ''INVALID_MESSAGE'' ''Failed to process message'']
                (socks st (conn_ws k)))) \<and>
      (connections (cm st) clientId = None \<or>
       (\<exists>k. connections (cm st) clientId = Some k \<and> readyState (socks st (conn_ws k)) \<noteq> OPEN) \<longrightarrow>
         socks (handleMessage E clientId w data now st) = socks st))"
proof (intro conjI impI)
  assume "JSON_parse E data = Some (OtherMessage t)"
  then show "handleMessage E clientId w data now st = st" by (rule handleMessage_other)
next
  assume p: "JSON_parse E data = None"
  note eq = handleMessage_parse_error[OF p]
  show "cm (handleMessage E clientId w data now st) = cm st" by (simp add: eq)
  show "ym (handleMessage E clientId w data now st) = ym st" by (simp add: eq)
  show "db (handleMessage E clientId w data now st) = db st" by (simp add: eq)
  show "\<forall>w'. readyState (socks (handleMessage E clientId w data now st) w') = readyState (socks st w')"
    by (simp add: eq sendToClient_at)
  show "\<forall>k. connections (cm st) clientId = Some k \<and> readyState (socks st (conn_ws k)) = OPEN \<longrightarrow>
         socks (handleMessage E clientId w data now st) =
           (socks st)(conn_ws k :=
              push [ErrorMessage ''INVALID_MESSAGE'' ''Failed to process message'']
                (socks st (conn_ws k)))"
    by (simp add: eq sendToClient_Some)
  show "socks (handleMessage E clientId w data now st) = socks st"
    if "connections (cm st) clientId = None \<or>
       (\<exists>k. connections (cm st) clientId = Some k \<and> readyState (socks st (conn_ws k)) \<noteq> OPEN)"
    using that by (auto simp: eq sendToClient_Some sendToClient_None)
qed

theorem invalid_frame_reply_witness:
  "JSON_parse demo_externals ''ping'' = Some (OtherMessage ''ping'') \<and>
   handleMessage demo_externals ''cA'' 1 ''ping'' 101 st_A = st_A \<and>
   JSON_parse demo_externals ''{'' = None \<and>
   connections (cm st_A) ''cA'' =
     Some \<lparr>conn_ws = 1, conn_roomId = ''R1'', conn_user = user_A, conn_joinedAt = 100\<rparr> \<and>
   readyState (socks st_A 1) = OPEN \<and>
   socks (handleMessage demo_externals ''cA'' 1 ''{'' 101 st_A) =
     (socks st_A)(1 := push [ErrorMessage ''INVALID_MESSAGE'' ''Failed to process message'']
                        (socks st_A 1)) \<and>
   connections (cm st_A) ''cZ'' = None \<and>
   socks (handleMessage demo_externals ''cZ'' 9 ''{'' 101 st_A) = socks st_A"
proof -
  have p1: "JSON_parse demo_externals ''ping'' = Some (OtherMessage ''ping'')"
    by (simp add: demo_externals_def demo_parse_def)
  have p2: "JSON_parse demo_externals ''{'' = None"
    by (simp add: demo_externals_def demo_parse_def)
  have k: "connections (cm st_A) ''cA'' =
     Some \<lparr>conn_ws = 1, conn_roomId = ''R1'', conn_user = user_A, conn_joinedAt = 100\<rparr>"
    by (simp add: connections_st_A)
  have z: "connections (cm st_A) ''cZ'' = None"
    by (simp add: connections_st_A)
  have o: "readyState (socks st_A 1) = OPEN" by simp
  note a = invalid_frame_reply [of demo_externals "''ping''" "''ping''" "''cA''" 1 101 st_A]
  note b = invalid_frame_reply [of demo_externals "''{''" "''ping''" "''cA''" 1 101 st_A]
  note c = invalid_frame_reply [of demo_externals "''{''" "''ping''" "''cZ''" 9 101 st_A]
  have r1: "handleMessage demo_externals ''cA'' 1 ''ping'' 101 st_A = st_A"
    using a p1 by blast
  have r2: "socks (handleMessage demo_externals ''cA'' 1 ''{'' 101 st_A) =
     (socks st_A)(1 := push [ErrorMessage ''INVALID_MESSAGE'' ''Failed to process message'']
                        (socks st_A 1))"
    using b p2 k o by auto
  have r3: "socks (handleMessage demo_externals ''cZ'' 9 ''{'' 101 st_A) = socks st_A"
    using c p2 z by blast
  show ?thesis using p1 p2 k z o r1 r2 r3 by blast
qed

text \<open>Claim C8 as stated fails twice. Client cA is registered in room R1 with socket 1
  open; after its frame of unknown type is handled, socket 1 has been sent nothing more, so
  no error frame. On a server that has just started, client cZ is not registered and its
  socket 9 is open; after its frame that does not parse is handled, socket 9 has been sent
  nothing.\<close>

theorem invalid_frame_counterexample:
  "JSON_parse demo_externals ''ping'' = Some (OtherMessage ''ping'') \<and>
   getRoomId ''cA'' (cm st_A) = Some ''R1'' \<and>
   readyState (socks st_A 1) = OPEN \<and>
   sent (socks (handleMessage demo_externals ''cA'' 1 ''ping'' 101 st_A) 1) = sent (socks st_A 1) \<and>
   JSON_parse demo_externals ''{'' = None \<and>
   readyState (socks (createWebSocketServer :: bytes list hub) 9) = OPEN \<and>
   sent (socks (handleMessage demo_externals ''cZ'' 9 ''{'' 5 createWebSocketServer) 9) = []"
proof -
  have p1: "JSON_parse demo_externals ''ping'' = Some (OtherMessage ''ping'')"
    by (simp add: demo_externals_def demo_parse_def)
  have p2: "JSON_parse demo_externals ''{'' = None"
    by (simp add: demo_externals_def demo_parse_def)
  have g: "getRoomId ''cA'' (cm st_A) = Some ''R1''"
    by (simp add: getRoomId_def connections_st_A)
  have r1: "handleMessage demo_externals ''cA'' 1 ''ping'' 101 st_A = st_A"
    using p1 by (rule handleMessage_other)
  have r2: "sent (socks (handleMessage demo_externals ''cZ'' 9 ''{'' 5 createWebSocketServer) 9) = []"
    unfolding handleMessage_parse_error[OF p2]
    by (simp add: sendToClient_None createWebSocketServer_def new_ConnectionManager_def
        new_sockets_def)
  have o: "readyState (socks (createWebSocketServer :: bytes list hub) 9) = OPEN"
    by (simp add: createWebSocketServer_def new_sockets_def)
  show ?thesis using p1 p2 g r1 r2 o by simp
qed

section \<open>The last member leaves\<close>

lemma ym_handleDisconnect [simp]: "ym (handleDisconnect E c now st) = ym st"
proof (cases "connections (cm st) c")
  case None
  then show ?thesis by (simp add: handleDisconnect_unregistered)
next
  case (Some k)
  then show ?thesis by (simp add: handleDisconnect_registered)
qed

lemma ym_handlePresence [simp]: "ym (handlePresence c cur sel vp st) = ym st"
  by (simp add: handlePresence_def split: option.splits)

lemma ym_handleChat [simp]: "ym (handleChat c n t ts st) = ym st"
  by (simp add: handleChat_def split: option.splits)

lemma documents_handleUpdate:
  "documents (ym st) r \<noteq> None \<Longrightarrow> handleUpdate E c delta st = Inr st' \<Longrightarrow>
   documents (ym st') r \<noteq> None"
  by (auto simp: handleUpdate_def applyUpdate_def Let_def split: option.splits if_splits sum.splits)

lemma documents_kept_handleConnect:
  "documents (ym st) r \<noteq> None \<Longrightarrow> documents (ym (handleConnect E c w r' u t st)) r \<noteq> None"
  by (simp add: documents_handleConnect)

lemma documents_kept_handleMessage:
  assumes "documents (ym st) r \<noteq> None"
  shows "documents (ym (handleMessage E c w data now st)) r \<noteq> None"
proof (cases "JSON_parse E data")
  case None
  then show ?thesis using assms by (simp add: handleMessage_parse_error)
next
  case (Some m)
  show ?thesis
  proof (cases m)
    case (UpdateMessage delta)
    show ?thesis
    proof (cases "handleUpdate E c delta st")
      case (Inl e)
      then show ?thesis using assms Some UpdateMessage by (simp add: handleMessage_def)
    next
      case (Inr st')
      have "documents (ym st') r \<noteq> None"
        using assms Inr by (rule documents_handleUpdate)
      then show ?thesis using Some UpdateMessage Inr by (simp add: handleMessage_def)
    qed
  qed (use assms Some in \<open>simp_all add: handleMessage_def documents_kept_handleConnect\<close>)
qed

lemma documents_kept_step:
  "documents (ym st) r \<noteq> None \<Longrightarrow> documents (ym (server_step E ev st)) r \<noteq> None"
  by (cases ev) (simp_all add: documents_kept_handleMessage interval_fire_def split: option.splits)

lemma documents_kept_run:
  "documents (ym st) r \<noteq> None \<Longrightarrow> documents (ym (server_run E evs st)) r \<noteq> None"
proof (induction evs arbitrary: st)
  case Nil
  then show ?case by simp
next
  case (Cons ev evs)
  from Cons.prems have "documents (ym (server_step E ev st)) r \<noteq> None"
    by (rule documents_kept_step)
  then have "documents (ym (server_run E evs (server_step E ev st))) r \<noteq> None"
    by (rule Cons.IH)
  then show ?case by simp
qed

lemma removeConnection_last:
  assumes "connections m c = Some k" and "roomClients m (conn_roomId k) = Some [c]"
  shows "roomClients (snd (removeConnection c m)) (conn_roomId k) = None"
  using assms by (simp add: removeConnection_def Let_def set_delete_def)

lemma ym_interval_fire [simp]: "ym (interval_fire E r st) = ym st"
  by (simp add: interval_fire_def split: option.splits)

lemma documents_st_A: "documents (ym st_A) ''R1'' = Some []"
  by (simp add: st_A_def documents_handleConnect fst_getOrCreateDocument demo_externals_def
      createWebSocketServer_def new_YjsDocumentManager_def new_database_def
      roomSnapshot_findFirst_desc_def roomSnapshot_findMany_desc_def)

lemma saveTimers_st_A:
  "saveTimers (ym st_A) ''R1'' = Some \<lparr>timer_roomId = ''R1'', timer_ms = 30000\<rparr>"
  by (simp add: st_A_def ym_handleConnect saveTimers_getOrCreateDocument
      createWebSocketServer_def new_YjsDocumentManager_def)

lemma roomSnapshots_st_A: "roomSnapshots (db st_A) = []"
  by (simp add: st_A_def createWebSocketServer_def new_database_def)

text \<open>Claim C5, as amended. When the last attached session of a room disconnects (the
  bucket of the room is exactly that client) and the room has a document, the room is
  empty afterwards and the server has saved a snapshot of the document: the row made from
  the document is in the table. The document is not destroyed and no destruction is
  scheduled: the document manager, with the document and the save timers, is as before,
  and after any further sequence of frames, closes and timer firings the room still has
  its document.\<close>

theorem last_leave_saves_and_keeps_document:
  assumes reg: "connections (cm st) clientId = Some k"
    and last: "roomClients (cm st) (conn_roomId k) = Some [clientId]"
    and doc: "documents (ym st) (conn_roomId k) = Some document"
    and ids: "distinct (map snap_id (roomSnapshots (db st)))"
    and st': "st' = handleDisconnect E clientId now st"
  shows "isRoomEmpty (conn_roomId k) (cm st') \<and>
         new_snapshot E (conn_roomId k) document (roomSnapshots (db st))
           \<in> set (roomSnapshots (db st')) \<and>
         ym st' = ym st \<and>
         documents (ym st') (conn_roomId k) = Some document \<and>
         saveTimers (ym st') = saveTimers (ym st) \<and>
         (\<forall>evs. documents (ym (server_run E evs st')) (conn_roomId k) \<noteq> None)"
proof -
  let ?R = "conn_roomId k"
  let ?m1 = "snd (removeConnection clientId (cm st))"
  let ?d1 = "roomParticipant_updateMany_leftAt clientId now (db st)"
  have gone: "roomClients ?m1 ?R = None"
    using reg last by (rule removeConnection_last)
  then have empty: "isRoomEmpty ?R ?m1"
    by (simp add: isRoomEmpty_def getRoomClientCount_def)
  have eq: "st' = st\<lparr>cm := ?m1, db := saveSnapshot E ?R None (ym st) ?d1,
        socks := broadcastToRoom ?R (LeaveBroadcast clientId (user_id (conn_user k))) None ?m1
                   (socks st)\<rparr>"
    unfolding st' handleDisconnect_registered[OF reg] using empty by simp
  have p1: "isRoomEmpty ?R (cm st')" using empty by (simp add: eq)
  have rows: "roomSnapshots ?d1 = roomSnapshots (db st)"
    by (simp add: roomParticipant_updateMany_leftAt_def)
  have doc': "(case None of Some x \<Rightarrow> Some x | None \<Rightarrow> documents (ym st) ?R) = Some document"
    using doc by simp
  have ids': "distinct (map snap_id (roomSnapshots ?d1))" using ids by (simp add: rows)
  have p2: "new_snapshot E ?R document (roomSnapshots (db st)) \<in> set (roomSnapshots (db st'))"
    using new_snapshot_saved[OF doc' ids', of E] by (simp add: eq rows)
  have p3: "ym st' = ym st" by (simp add: eq)
  have p4: "documents (ym st') ?R = Some document" using doc by (simp add: p3)
  have p5: "saveTimers (ym st') = saveTimers (ym st)" by (simp add: p3)
  have p6: "\<forall>evs. documents (ym (server_run E evs st')) ?R \<noteq> None"
  proof
    fix evs
    have "documents (ym st') ?R \<noteq> None" using p4 by simp
    then show "documents (ym (server_run E evs st')) ?R \<noteq> None" by (rule documents_kept_run)
  qed
  from p1 p2 p3 p4 p5 p6 show ?thesis by (intro conjI)
qed

theorem last_leave_saves_and_keeps_document_witness:
  "connections (cm st_A) ''cA'' =
     Some \<lparr>conn_ws = 1, conn_roomId = ''R1'', conn_user = user_A, conn_joinedAt = 100\<rparr> \<and>
   roomClients (cm st_A) ''R1'' = Some [''cA''] \<and>
   documents (ym st_A) ''R1'' = Some [] \<and>
   distinct (map snap_id (roomSnapshots (db st_A))) \<and>
   isRoomEmpty ''R1'' (cm (handleDisconnect demo_externals ''cA'' 200 st_A)) \<and>
   new_snapshot demo_externals ''R1'' [] [] \<in>
     set (roomSnapshots (db (handleDisconnect demo_externals ''cA'' 200 st_A))) \<and>
   documents (ym (handleDisconnect demo_externals ''cA'' 200 st_A)) ''R1'' = Some [] \<and>
   documents (ym (server_run demo_externals [SaveTimer ''R1'', Close ''cA'' 300]
      (handleDisconnect demo_externals ''cA'' 200 st_A))) ''R1'' \<noteq> None"
proof -
  let ?k = "\<lparr>conn_ws = 1, conn_roomId = ''R1'', conn_user = user_A, conn_joinedAt = 100\<rparr>"
  have h1: "connections (cm st_A) ''cA'' = Some ?k" by (simp add: connections_st_A)
  have h2: "roomClients (cm st_A) (conn_roomId ?k) = Some [''cA'']" by (simp add: roomClients_st_A)
  have h3: "documents (ym st_A) (conn_roomId ?k) = Some []" by (simp add: documents_st_A)
  have h4: "distinct (map snap_id (roomSnapshots (db st_A)))" by (simp add: roomSnapshots_st_A)
  note t = last_leave_saves_and_keeps_document [OF h1 h2 h3 h4 refl, of demo_externals 200]
  from t have a: "isRoomEmpty ''R1'' (cm (handleDisconnect demo_externals ''cA'' 200 st_A))"
    by simp
  from t have b: "new_snapshot demo_externals ''R1'' [] [] \<in>
     set (roomSnapshots (db (handleDisconnect demo_externals ''cA'' 200 st_A)))"
    by (simp add: roomSnapshots_st_A)
  from t have c: "documents (ym (handleDisconnect demo_externals ''cA'' 200 st_A)) ''R1'' = Some []"
    by simp
  from t have "\<forall>evs. documents (ym (server_run demo_externals evs
      (handleDisconnect demo_externals ''cA'' 200 st_A))) ''R1'' \<noteq> None"
    by simp
  then have d: "documents (ym (server_run demo_externals [SaveTimer ''R1'', Close ''cA'' 300]
      (handleDisconnect demo_externals ''cA'' 200 st_A))) ''R1'' \<noteq> None"
    by (rule spec)
  show ?thesis using h1 h2[simplified] h3[simplified] h4 a b c d by (intro conjI)
qed

text \<open>Claim C5 as stated fails: after the only client of room R1 has disconnected, the room
  has no attached session, and its document and its periodic save timer are still held by
  the document manager; they still are after the timer has fired twice.\<close>

theorem last_leave_counterexample:
  "getRoomId ''cA'' (cm st_A) = Some ''R1'' \<and>
   getRoomClientCount ''R1'' (cm st_A) = 1 \<and>
   getRoomClientCount ''R1'' (cm (handleDisconnect demo_externals ''cA'' 200 st_A)) = 0 \<and>
   documents (ym (handleDisconnect demo_externals ''cA'' 200 st_A)) ''R1'' = Some [] \<and>
   saveTimers (ym (handleDisconnect demo_externals ''cA'' 200 st_A)) ''R1'' =
     Some \<lparr>timer_roomId = ''R1'', timer_ms = 30000\<rparr> \<and>
   documents (ym (server_run demo_externals [SaveTimer ''R1'', SaveTimer ''R1'']
      (handleDisconnect demo_externals ''cA'' 200 st_A))) ''R1'' = Some []"
proof -
  let ?k = "\<lparr>conn_ws = 1, conn_roomId = ''R1'', conn_user = user_A, conn_joinedAt = 100\<rparr>"
  let ?st = "handleDisconnect demo_externals ''cA'' 200 st_A"
  have h1: "connections (cm st_A) ''cA'' = Some ?k" by (simp add: connections_st_A)
  have g: "getRoomId ''cA'' (cm st_A) = Some ''R1''" by (simp add: getRoomId_def h1)
  have c1: "getRoomClientCount ''R1'' (cm st_A) = 1"
    by (simp add: getRoomClientCount_def roomClients_st_A)
  have "roomClients (snd (removeConnection ''cA'' (cm st_A))) (conn_roomId ?k) = None"
    using h1 by (rule removeConnection_last) (simp add: roomClients_st_A)
  then have c0: "getRoomClientCount ''R1'' (cm ?st) = 0"
    by (simp add: handleDisconnect_registered[OF h1] getRoomClientCount_def)
  have y: "ym ?st = ym st_A" by simp
  show ?thesis using g c1 c0 by (simp add: documents_st_A saveTimers_st_A)
qed

section \<open>Two saves at once\<close>

text \<open>When the calls of one save all come before those of the other, the two saves are two
  saves that run alone.\<close>

lemma overlap_sequential:
  "snd (snd (overlap [FirstSave, FirstSave, FirstSave, FirstSave,
                      SecondSave, SecondSave, SecondSave, SecondSave] a b rows)) =
   save_alone b (save_alone a rows)"
  by (simp add: save_alone_def split: prod.splits)

text \<open>Claim C4 as stated fails for saves that overlap. In state \<open>st_A\<close> room R1 has a document,
  a running save timer and one member, so the interval save and the save of the last
  leave can both be under way. When their store calls alternate on an empty table, both
  read that there is no snapshot and both create a row with version 1: the versions of
  the room are not strictly increasing. On a table with ten snapshots of the room, when
  the second save creates its row between the \<^verbatim>\<open>findMany\<close> and the \<^verbatim>\<open>deleteMany\<close> of the
  first, the room has 11 snapshots when the pruning of the first save has ended.\<close>

theorem overlapping_saves_counterexample:
  "saveTimers (ym st_A) ''R1'' = Some \<lparr>timer_roomId = ''R1'', timer_ms = 30000\<rparr> \<and>
   isRoomEmpty ''R1'' (snd (removeConnection ''cA'' (cm st_A))) \<and>
   map_option (save_start demo_externals ''R1'') (documents (ym st_A) ''R1'') = Some save_R1 \<and>
   save_pc (fst overlapped) = Finished \<and> save_pc (fst (snd overlapped)) = Finished \<and>
   map snap_version (room_snapshots ''R1'' (snd (snd overlapped))) = [1, 1] \<and>
   map snap_id (room_snapshots ''R1'' (snd (snd overlapped))) = [1, 2] \<and>
   length (room_snapshots ''R1'' ten_rows) = 10 \<and>
   save_pc (fst overlapped_prune) = Finished \<and>
   length (room_snapshots ''R1'' (snd (snd overlapped_prune))) = 11"
proof -
  have a: "save_pc (fst overlapped) = Finished \<and> save_pc (fst (snd overlapped)) = Finished \<and>
   map snap_version (room_snapshots ''R1'' (snd (snd overlapped))) = [1, 1] \<and>
   map snap_id (room_snapshots ''R1'' (snd (snd overlapped))) = [1, 2]"
    by (simp add: overlapped_def save_R1_def save_start_def save_step_def Let_def
      roomSnapshot_findFirst_desc_def roomSnapshot_findMany_desc_def roomSnapshot_create_def
      roomSnapshot_deleteMany_def
      fresh_snapshot_id_def next_version_def room_snapshots_def)
  have b: "save_pc (fst overlapped_prune) = Finished \<and>
   length (room_snapshots ''R1'' (snd (snd overlapped_prune))) = 11"
    by (simp add: overlapped_prune_def save_R1_def save_start_def save_step_def Let_def
      roomSnapshot_findFirst_desc_def roomSnapshot_findMany_desc_def roomSnapshot_create_def
      roomSnapshot_deleteMany_def ten_rows_def snap_def
      fresh_snapshot_id_def next_version_def room_snapshots_def)
  have c: "length (room_snapshots ''R1'' ten_rows) = 10"
    by (simp add: room_snapshots_def ten_rows_def snap_def)
  have "roomClients (snd (removeConnection ''cA'' (cm st_A)))
          (conn_roomId \<lparr>conn_ws = 1, conn_roomId = ''R1'', conn_user = user_A, conn_joinedAt = 100\<rparr>) = None"
    by (rule removeConnection_last) (simp_all add: connections_st_A roomClients_st_A)
  then have e: "isRoomEmpty ''R1'' (snd (removeConnection ''cA'' (cm st_A)))"
    by (simp add: isRoomEmpty_def getRoomClientCount_def)
  have s: "map_option (save_start demo_externals ''R1'') (documents (ym st_A) ''R1'') = Some save_R1"
    by (simp add: documents_st_A save_R1_def)
  from a b c e s saveTimers_st_A show ?thesis by simp
qed

section \<open>A second connect\<close>

lemma connections_st_AB:
  "connections (cm st_AB) =
     [''cA'' \<mapsto> \<lparr>conn_ws = 1, conn_roomId = ''R1'', conn_user = user_A, conn_joinedAt = 100\<rparr>,
      ''cB'' \<mapsto> \<lparr>conn_ws = 2, conn_roomId = ''R1'', conn_user = user_B, conn_joinedAt = 101\<rparr>]"
  by (simp add: st_AB_def connections_st_A)

lemma bucket_st_AB: "bucket (cm st_AB) ''R1'' = [''cA'', ''cB'']"
  by (simp add: st_AB_def bucket_add set_add_def bucket_def roomClients_st_A)

lemma readyState_st_AB [simp]: "readyState (socks st_AB w) = OPEN"
  by (simp add: st_AB_def)

lemma roomParticipants_st_AB: "length (roomParticipants (db st_AB)) = 2"
  by (simp add: st_AB_def st_A_def roomParticipants_handleConnect createWebSocketServer_def
      new_database_def)




end
